theory Spec2Isabelle
  imports Complex_Main "HOL-Library.AList"
begin

section \<open>Shared Python notions\<close>

text \<open>
  Grid coordinates are pairs of Python integers. The exceptions that the modelled
  methods can raise are values of \<open>py_error\<close>.
\<close>

type_synonym coord = "int \<times> int"

datatype py_error = IndexError | KeyError | ZeroDivisionError

text \<open>
  \<open>xs[i]\<close> on a Python list: an index from \<open>-len(xs)\<close> up to \<open>len(xs) - 1\<close> is
  accepted, a negative one counts from the end, anything else raises IndexError.
\<close>

definition py_index :: "'a list \<Rightarrow> int \<Rightarrow> py_error + 'a" where
  "py_index xs i =
     (if 0 \<le> i \<and> i < int (length xs) then Inr (xs ! nat i)
      else if i < 0 \<and> - int (length xs) \<le> i then Inr (xs ! nat (int (length xs) + i))
      else Inl IndexError)"

section \<open>EmergencyVehicleAgent (src/src/agents.py)\<close>

text \<open>
  One entry of \<open>active_emergencies\<close>. The dictionary built by \<open>dispatch_vehicle\<close> has
  no key \<open>travel_time\<close>; \<open>update_position\<close> adds it at completion, so the field is an
  option. \<open>pd.Timestamp.now()\<close> is an input of the model: every method that reads the
  wall clock takes the reading as its last argument, in seconds.
\<close>

record emergency =
  path :: "coord list"
  current_position :: int
  start_point :: coord
  end_point :: coord
  priority :: int
  start_time :: rat
  status :: string
  intersections_cleared :: "coord list"
  travel_time :: "rat option"

text \<open>
  The two dictionaries keep insertion order, and assigning to a key that is present
  keeps its place: an association list with \<open>AList.update\<close>.
\<close>

record EmergencyVehicleAgent =
  active_emergencies :: "(string \<times> emergency) list"
  completed_emergencies :: "(string \<times> emergency) list"
  grid_size :: int

definition EmergencyVehicleAgent_init :: EmergencyVehicleAgent where
  "EmergencyVehicleAgent_init =
     \<lparr>active_emergencies = [], completed_emergencies = [], grid_size = 4\<rparr>"

definition set_grid_size :: "EmergencyVehicleAgent \<Rightarrow> int \<Rightarrow> EmergencyVehicleAgent" where
  "set_grid_size s sz = s\<lparr>grid_size := sz\<rparr>"

subsection \<open>Path generation\<close>

text \<open>
  The first \<open>while\<close> loop of \<open>_generate_path\<close>: the loop variables are \<open>current_x\<close>
  and \<open>path\<close>; \<open>current_y\<close> and \<open>end_x\<close> are read only.
\<close>

function move_x :: "int \<Rightarrow> int \<Rightarrow> int \<Rightarrow> coord list \<Rightarrow> int \<times> coord list" where
  "move_x current_x current_y end_x p =
     (if current_x \<noteq> end_x then
        (let cx = (if current_x < end_x then current_x + 1 else current_x - 1)
         in move_x cx current_y end_x (p @ [(cx, current_y)]))
      else (current_x, p))"
  by pat_completeness auto
termination
  by (relation "measure (\<lambda>(cx, cy, ex, p). nat \<bar>ex - cx\<bar>)") auto

text \<open>The second loop, over \<open>current_y\<close>, with \<open>current_x\<close> fixed.\<close>

function move_y :: "int \<Rightarrow> int \<Rightarrow> int \<Rightarrow> coord list \<Rightarrow> int \<times> coord list" where
  "move_y current_x current_y end_y p =
     (if current_y \<noteq> end_y then
        (let cy = (if current_y < end_y then current_y + 1 else current_y - 1)
         in move_y current_x cy end_y (p @ [(current_x, cy)]))
      else (current_y, p))"
  by pat_completeness auto
termination
  by (relation "measure (\<lambda>(cx, cy, ey, p). nat \<bar>ey - cy\<bar>)") auto

declare move_x.simps [simp del] move_y.simps [simp del]

definition generate_path :: "coord \<Rightarrow> coord \<Rightarrow> coord list" where
  "generate_path start_pt end_pt =
     (case start_pt of (start_x, start_y) \<Rightarrow>
      case end_pt of (end_x, end_y) \<Rightarrow>
        (case move_x start_x start_y end_x [] of (current_x, p1) \<Rightarrow>
         case move_y current_x start_y end_y p1 of (current_y, p2) \<Rightarrow> p2))"

subsection \<open>Dispatch\<close>

datatype dispatch_result = Dispatched string "coord list" int

definition dispatch_vehicle ::
  "EmergencyVehicleAgent \<Rightarrow> string \<Rightarrow> coord \<Rightarrow> coord \<Rightarrow> int \<Rightarrow> rat
     \<Rightarrow> EmergencyVehicleAgent \<times> dispatch_result" where
  "dispatch_vehicle s vehicle_id start_pt end_pt prio now =
     (let p = generate_path start_pt end_pt;
          rec = \<lparr>path = p, current_position = 0, start_point = start_pt,
                 end_point = end_pt, priority = prio, start_time = now,
                 status = ''active'', intersections_cleared = [], travel_time = None\<rparr>;
          s' = s\<lparr>active_emergencies := AList.update vehicle_id rec (active_emergencies s)\<rparr>;
          notify_length = min 3 (length p)
      in (s', Dispatched vehicle_id (take notify_length p) prio))"

subsection \<open>Position updates\<close>

text \<open>
  The look-ahead loop \<open>for i in range(1, 4)\<close> of \<open>update_position\<close>, over the list of
  the remaining values of \<open>i\<close>. Its state is the pair of \<open>notify_intersections\<close> and the
  record's \<open>intersections_cleared\<close>; an exception of the path access ends it with the
  state reached so far.
\<close>

fun look_ahead ::
  "coord list \<Rightarrow> int \<Rightarrow> int list \<Rightarrow> coord list \<times> coord list
     \<Rightarrow> (coord list \<times> coord list) \<times> py_error option" where
  "look_ahead p new_idx [] acc = (acc, None)"
| "look_ahead p new_idx (i # rest) (notify, cleared) =
     (if new_idx + i < int (length p) then
        (case py_index p (new_idx + i) of
           Inl err \<Rightarrow> ((notify, cleared), Some err)
         | Inr next_pos \<Rightarrow>
             if next_pos \<notin> set cleared
             then look_ahead p new_idx rest (notify @ [next_pos], cleared @ [next_pos])
             else look_ahead p new_idx rest (notify, cleared))
      else look_ahead p new_idx rest (notify, cleared))"

text \<open>
  The three dictionaries that \<open>update_position\<close> returns: \<open>{"error": msg}\<close>,
  \<open>{"status": "completed", "vehicle_id", "travel_time"}\<close> and
  \<open>{"vehicle_id", "current_position", "notify_intersections", "status": "active"}\<close>.
\<close>

datatype update_result =
    Error string
  | Completed string rat
  | Active string coord "coord list"

text \<open>
  The method mutates the record in place before it can raise, so the model returns the
  agent reached together with either the exception or the returned dictionary.
\<close>

definition update_position ::
  "EmergencyVehicleAgent \<Rightarrow> string \<Rightarrow> int \<Rightarrow> rat
     \<Rightarrow> EmergencyVehicleAgent \<times> (py_error + update_result)" where
  "update_position s vehicle_id steps now =
     (case map_of (active_emergencies s) vehicle_id of
        None \<Rightarrow> (s, Inr (Error ''Vehicle not found''))
      | Some emergency \<Rightarrow>
          (let current_idx = current_position emergency;
               new_idx = min (current_idx + steps) (int (length (path emergency)) - 1);
               e1 = emergency\<lparr>current_position := new_idx\<rparr>;
               store = (\<lambda>e. s\<lparr>active_emergencies :=
                                 AList.update vehicle_id e (active_emergencies s)\<rparr>)
           in case py_index (path e1) new_idx of
                Inl err \<Rightarrow> (store e1, Inl err)
              | Inr new_position \<Rightarrow>
                  (case look_ahead (path e1) new_idx [1, 2, 3] ([], intersections_cleared e1) of
                     ((notify, cleared), Some err) \<Rightarrow>
                       (store (e1\<lparr>intersections_cleared := cleared\<rparr>), Inl err)
                   | ((notify, cleared), None) \<Rightarrow>
                       (let e2 = e1\<lparr>intersections_cleared := cleared\<rparr>
                        in if new_idx \<ge> int (length (path e2)) - 1 then
                             (let t = now - start_time e2;
                                  e3 = e2\<lparr>status := ''completed'', travel_time := Some t\<rparr>
                              in (store e3, Inr (Completed vehicle_id t)))
                           else (store e2, Inr (Active vehicle_id new_position notify))))))"

subsection \<open>Metrics\<close>

text \<open>
  The dictionary returned by \<open>get_metrics\<close>; the keys \<open>min_travel_time\<close> and
  \<open>max_travel_time\<close> are absent, and \<open>avg_travel_time\<close> is None, in the first branch.
\<close>

record emergency_metrics =
  total_emergencies :: nat
  completed_count :: nat
  avg_travel_time :: "rat option"
  min_travel_time :: "rat option"
  max_travel_time :: "rat option"

fun travel_times_of :: "(string \<times> emergency) list \<Rightarrow> py_error + rat list" where
  "travel_times_of [] = Inr []"
| "travel_times_of ((k, e) # rest) =
     (case travel_time e of
        None \<Rightarrow> Inl KeyError
      | Some t \<Rightarrow> (case travel_times_of rest of Inl err \<Rightarrow> Inl err | Inr ts \<Rightarrow> Inr (t # ts)))"

definition get_metrics :: "EmergencyVehicleAgent \<Rightarrow> py_error + emergency_metrics" where
  "get_metrics s =
     (if completed_emergencies s = [] then
        Inr \<lparr>total_emergencies = length (active_emergencies s), completed_count = 0,
             avg_travel_time = None, min_travel_time = None, max_travel_time = None\<rparr>
      else
        (case travel_times_of (completed_emergencies s) of
           Inl err \<Rightarrow> Inl err
         | Inr travel_times \<Rightarrow>
             Inr \<lparr>total_emergencies =
                    length (active_emergencies s) + length (completed_emergencies s),
                  completed_count = length (completed_emergencies s),
                  avg_travel_time =
                    Some (sum_list travel_times / of_nat (length travel_times)),
                  min_travel_time = Some (fold min (tl travel_times) (hd travel_times)),
                  max_travel_time = Some (fold max (tl travel_times) (hd travel_times))\<rparr>))"

section \<open>SignalControlAgent (src/src/agents.py)\<close>

text \<open>
  \<open>waiting_vehicles\<close> is a dictionary that \<open>__init__\<close> creates with the four keys
  north, south, east and west; no method removes a key, and the traffic distribution of
  the data processor has the same four keys. The keys are the datatype \<open>direction\<close> and
  the dictionary is a total function on it, so the four constant-key reads cannot fail.
  \<open>sum(self.waiting_vehicles.values())\<close> adds the four entries.

  Where the code turns a float back into an integer with \<open>int(...)\<close>, for the phase
  duration and for the vehicles that a green phase clears, every float operation is
  modelled with its rounding: \<open>py_float\<close> rounds a rational to the nearest double,
  and \<open>py_int\<close> truncates towards zero. The exponent range has no upper end in the
  model: a quotient or a count beyond the largest double, about \<open>1.8e308\<close>, where
  Python raises OverflowError, is outside it. Floats that are only reported (the fairness
  index, the averages, travel and response times) are the exact rationals.
\<close>

datatype direction = North | South | East | West

record vehicles =
  cars :: int
  bikes :: int
  buses :: int
  trucks :: int
  total_v :: int

type_synonym distribution = "(direction \<times> vehicles) list"

text \<open>Rounding to the nearest integer, a tie going to the even one.\<close>

definition round_half_even :: "rat \<Rightarrow> int" where
  "round_half_even q =
     (let f = \<lfloor>q\<rfloor>; r = q - of_int f
      in if r < 1 / 2 then f else if 1 / 2 < r then f + 1
         else if even f then f else f + 1)"

text \<open>
  The binary exponent of a positive rational: \<open>binade_up\<close> counts the halvings that
  bring a number of at least 1 below 2, \<open>binade_down\<close> the doublings that bring a
  positive number below 1 up to 1.
\<close>

function binade_up :: "rat \<Rightarrow> int" where
  "binade_up x = (if 2 \<le> x then binade_up (x / 2) + 1 else 0)"
  by pat_completeness auto
termination
proof (relation "measure (\<lambda>x. nat \<lfloor>x\<rfloor>)")
  show "wf (measure (\<lambda>x::rat. nat \<lfloor>x\<rfloor>))" by simp
next
  fix x :: rat
  assume "2 \<le> x"
  then have "x / 2 \<le> x - 1" by simp
  then have "\<lfloor>x / 2\<rfloor> \<le> \<lfloor>x - 1\<rfloor>" by (rule floor_mono)
  moreover have "2 \<le> \<lfloor>x\<rfloor>" using \<open>2 \<le> x\<close> by (simp add: le_floor_iff)
  ultimately show "(x / 2, x) \<in> measure (\<lambda>x. nat \<lfloor>x\<rfloor>)" by simp
qed

function binade_down :: "rat \<Rightarrow> int" where
  "binade_down x = (if 0 < x \<and> x < 1 then binade_down (2 * x) - 1 else 0)"
  by pat_completeness auto
termination
proof (relation "measure (\<lambda>x. nat \<lfloor>1 / x\<rfloor>)")
  show "wf (measure (\<lambda>x::rat. nat \<lfloor>1 / x\<rfloor>))" by simp
next
  fix x :: rat
  assume a: "0 < x \<and> x < 1"
  then have y: "1 < 1 / x" by simp
  have f1: "1 \<le> \<lfloor>1 / x\<rfloor>" using y by (simp add: le_floor_iff)
  then have b1: "(1::rat) \<le> of_int \<lfloor>1 / x\<rfloor>" by (simp only: of_int_1_le_iff)
  have "1 / (2 * x) = (1 / x) / 2" by simp
  also have "\<dots> < (of_int \<lfloor>1 / x\<rfloor> + 1) / 2"
    using floor_correct[of "1 / x"] by (simp add: divide_strict_right_mono)
  also have "\<dots> \<le> of_int \<lfloor>1 / x\<rfloor>" using b1 by simp
  finally have "1 / (2 * x) < of_int \<lfloor>1 / x\<rfloor>" .
  then have "\<lfloor>1 / (2 * x)\<rfloor> < \<lfloor>1 / x\<rfloor>" by (simp only: floor_less_iff)
  then show "(2 * x, x) \<in> measure (\<lambda>x. nat \<lfloor>1 / x\<rfloor>)" using f1 by simp
qed

declare binade_up.simps [simp del] binade_down.simps [simp del]

definition binade :: "rat \<Rightarrow> int" where
  "binade x = (if 1 \<le> x then binade_up x else binade_down x)"

text \<open>
  The double nearest to a rational: 53 significant bits, ties to even, and the
  fixed spacing of the subnormal numbers below the normal range.
\<close>

definition py_float :: "rat \<Rightarrow> rat" where
  "py_float x =
     (if x = 0 then 0
      else (let u = 2 powi (max (binade \<bar>x\<bar> - 52) (- 1074))
            in sgn x * of_int (round_half_even (\<bar>x\<bar> / u)) * u))"

definition py_int :: "rat \<Rightarrow> int" where
  "py_int q = (if 0 \<le> q then \<lfloor>q\<rfloor> else \<lceil>q\<rceil>)"

record SignalControlAgent =
  intersection_id :: string
  location :: coord
  current_phase :: int
  phase_duration :: int
  time_in_phase :: int
  emergency_mode :: bool
  waiting_vehicles :: "direction \<Rightarrow> int"
  historical_wait_times :: "int list"

definition SignalControlAgent_init :: "string \<Rightarrow> coord \<Rightarrow> SignalControlAgent" where
  "SignalControlAgent_init ident loc =
     \<lparr>intersection_id = ident, location = loc, current_phase = 0, phase_duration = 30,
      time_in_phase = 0, emergency_mode = False, waiting_vehicles = (\<lambda>d. 0),
      historical_wait_times = []\<rparr>"

definition total_waiting :: "SignalControlAgent \<Rightarrow> int" where
  "total_waiting a = sum_list (map (waiting_vehicles a) [North, South, East, West])"

definition calculate_optimal_timing :: "SignalControlAgent \<Rightarrow> SignalControlAgent" where
  "calculate_optimal_timing a =
     (let ns_total = waiting_vehicles a North + waiting_vehicles a South;
          ew_total = waiting_vehicles a East + waiting_vehicles a West;
          base_timing = 30;
          a1 = (if current_phase a = 0 then
                  (if ns_total > ew_total then
                     (let ratio = min 3 (py_float (of_int ns_total / of_int (max 1 ew_total)))
                      in a\<lparr>phase_duration := py_int (py_float (of_int base_timing * ratio))\<rparr>)
                   else a\<lparr>phase_duration := max 15 (base_timing div 2)\<rparr>)
                else
                  (if ew_total > ns_total then
                     (let ratio = min 3 (py_float (of_int ew_total / of_int (max 1 ns_total)))
                      in a\<lparr>phase_duration := py_int (py_float (of_int base_timing * ratio))\<rparr>)
                   else a\<lparr>phase_duration := max 15 (base_timing div 2)\<rparr>))
      in a1\<lparr>phase_duration := min 90 (phase_duration a1)\<rparr>)"

text \<open>The dictionary that \<open>process_traffic_data\<close> returns.\<close>

datatype traffic_report = Report string int int "direction \<Rightarrow> int" bool

definition process_traffic_data ::
  "SignalControlAgent \<Rightarrow> distribution \<Rightarrow> SignalControlAgent \<times> traffic_report" where
  "process_traffic_data a distributed_traffic =
     (let wv = fold (\<lambda>(d, v) w. w(d := total_v v)) distributed_traffic (waiting_vehicles a);
          a1 = a\<lparr>waiting_vehicles := wv\<rparr>;
          a2 = (if \<not> emergency_mode a1 then calculate_optimal_timing a1 else a1);
          h = historical_wait_times a2 @ [total_waiting a2];
          a3 = a2\<lparr>historical_wait_times := (if length h > 12 then tl h else h)\<rparr>
      in (a3, Report (intersection_id a3) (current_phase a3) (phase_duration a3)
                (waiting_vehicles a3) (emergency_mode a3)))"

definition process_movement ::
  "SignalControlAgent \<Rightarrow> direction \<Rightarrow> direction \<Rightarrow> SignalControlAgent" where
  "process_movement a dir1 dir2 =
     (let cleared1 = py_int (py_float (py_float (of_int (waiting_vehicles a dir1)) *
                                         py_float (7 / 10)));
          cleared2 = py_int (py_float (py_float (of_int (waiting_vehicles a dir2)) *
                                         py_float (7 / 10)));
          w1 = (waiting_vehicles a)(dir1 := waiting_vehicles a dir1 - cleared1);
          w2 = w1(dir2 := w1 dir2 - cleared2)
      in a\<lparr>waiting_vehicles := w2\<rparr>)"

definition switch_phase :: "SignalControlAgent \<Rightarrow> SignalControlAgent" where
  "switch_phase a =
     (let a1 = a\<lparr>current_phase := 1 - current_phase a, time_in_phase := 0\<rparr>
      in if current_phase a1 = 0 then process_movement a1 North South
         else process_movement a1 East West)"

definition update :: "SignalControlAgent \<Rightarrow> int \<Rightarrow> SignalControlAgent \<times> bool" where
  "update a step_len =
     (let a1 = a\<lparr>time_in_phase := time_in_phase a + step_len\<rparr>
      in if time_in_phase a1 \<ge> phase_duration a1 then (switch_phase a1, True)
         else (a1, False))"

datatype mode_report = EmergencyModeActivated string int | NormalOperationResumed

definition switch_to_emergency_mode ::
  "SignalControlAgent \<Rightarrow> direction \<Rightarrow> SignalControlAgent \<times> mode_report" where
  "switch_to_emergency_mode a d =
     (let a1 = a\<lparr>emergency_mode := True\<rparr>;
          target_phase = (if d \<in> set [North, South] then 0 else 1);
          a2 = (if current_phase a1 \<noteq> target_phase
                then a1\<lparr>current_phase := target_phase, time_in_phase := 0\<rparr> else a1);
          a3 = a2\<lparr>phase_duration := 60\<rparr>
      in (a3, EmergencyModeActivated (intersection_id a3) (current_phase a3)))"

definition exit_emergency_mode :: "SignalControlAgent \<Rightarrow> SignalControlAgent \<times> mode_report" where
  "exit_emergency_mode a =
     (calculate_optimal_timing (a\<lparr>emergency_mode := False\<rparr>), NormalOperationResumed)"

text \<open>
  The dictionary of \<open>get_fairness_metrics\<close>: the keys \<open>max_wait\<close> and \<open>avg_wait\<close> are
  present only in the last branch.
\<close>

record fairness_metrics =
  fairness_index :: rat
  max_wait :: "int option"
  avg_wait :: "rat option"

definition get_fairness_metrics :: "SignalControlAgent \<Rightarrow> fairness_metrics" where
  "get_fairness_metrics a =
     (let h = historical_wait_times a in
      if h = [] then \<lparr>fairness_index = 1, max_wait = None, avg_wait = None\<rparr>
      else
        (let n = int (length h);
             squared_sum = sum_list (map (\<lambda>w. w ^ 2) h);
             sum_squared = (sum_list h) ^ 2
         in if squared_sum = 0 then \<lparr>fairness_index = 1, max_wait = None, avg_wait = None\<rparr>
            else \<lparr>fairness_index = of_int sum_squared / of_int (n * squared_sum),
                  max_wait = Some (fold max (tl h) (hd h)),
                  avg_wait = Some (of_int (sum_list h) / of_int n)\<rparr>))"

section \<open>TrafficSimulation (src/src/simulation.py)\<close>

text \<open>
  The data processor and the visualizer are outside the model. The visualizer only
  reads the state. What the data processor returns is an input: \<open>run_step\<close> takes the
  traffic distribution handed to each intersection (by its place in the list) and the
  wall-clock reading of each position update (by its place among the active
  emergencies). The simulation clock counts minutes from 2023-01-01 00:00.
\<close>

record sim_metrics =
  average_wait_time :: "rat list"
  fairness_index_series :: "rat list"
  emergency_response_time :: "rat option"
  normal_response_time :: "int option"

record TrafficSimulation =
  sim_grid_size :: int
  current_time :: int
  time_step :: int
  intersections :: "SignalControlAgent list"
  emergency_agent :: EmergencyVehicleAgent
  metrics :: sim_metrics

text \<open>The decimal numeral of the f-string \<open>f"intersection_{n}"\<close>.\<close>

function str_nat :: "nat \<Rightarrow> string" where
  "str_nat n = (if n < 10 then [char_of (48 + n)]
                else str_nat (n div 10) @ [char_of (48 + n mod 10)])"
  by pat_completeness auto
termination
  by (relation "measure id") auto

declare str_nat.simps [simp del]

definition str_int :: "int \<Rightarrow> string" where
  "str_int i = (if i < 0 then CHR ''-'' # str_nat (nat (- i)) else str_nat (nat i))"

text \<open>\<open>range(n)\<close> is empty for \<open>n \<le> 0\<close>.\<close>

definition py_range :: "int \<Rightarrow> int list" where
  "py_range n = [0..n - 1]"

definition create_intersections :: "int \<Rightarrow> SignalControlAgent list" where
  "create_intersections gs =
     concat (map (\<lambda>y. map (\<lambda>x. SignalControlAgent_init
                                   (''intersection_'' @ str_int (y * gs + x)) (x, y))
                            (py_range gs))
                 (py_range gs))"

definition TrafficSimulation_init :: "int \<Rightarrow> TrafficSimulation" where
  "TrafficSimulation_init gs =
     \<lparr>sim_grid_size = gs, current_time = 480, time_step = 5,
      intersections = create_intersections gs,
      emergency_agent = set_grid_size EmergencyVehicleAgent_init gs,
      metrics = \<lparr>average_wait_time = [], fairness_index_series = [],
                 emergency_response_time = None, normal_response_time = None\<rparr>\<rparr>"

text \<open>
  \<open>get_intersection_at\<close> returns a reference into \<open>self.intersections\<close>, which the
  caller then mutates: the model returns the index of the element.
\<close>

definition get_intersection_at :: "TrafficSimulation \<Rightarrow> int \<Rightarrow> int \<Rightarrow> py_error + nat option" where
  "get_intersection_at sim x y =
     (if 0 \<le> x \<and> x < sim_grid_size sim \<and> 0 \<le> y \<and> y < sim_grid_size sim then
        (let idx = y * sim_grid_size sim + x
         in case py_index (intersections sim) idx of
              Inl err \<Rightarrow> Inl err
            | Inr _ \<Rightarrow> Inr (Some (nat (if idx < 0 then int (length (intersections sim)) + idx
                                         else idx))))
      else Inr None)"

text \<open>
  The first loop of \<open>run_step\<close>, over the intersections left to visit; \<open>i\<close> is the place
  of the next one. The result is the updated list with \<open>wait_times\<close> and
  \<open>fairness_values\<close>.
\<close>

fun process_intersections ::
  "(nat \<Rightarrow> distribution) \<Rightarrow> int \<Rightarrow> nat \<Rightarrow> SignalControlAgent list
     \<Rightarrow> SignalControlAgent list \<times> int list \<times> rat list" where
  "process_intersections traffic step_len i [] = ([], [], [])"
| "process_intersections traffic step_len i (a # rest) =
     (let a1 = fst (process_traffic_data a (traffic i));
          a2 = fst (update a1 step_len);
          w = total_waiting a2;
          f = fairness_index (get_fairness_metrics a2)
      in case process_intersections traffic step_len (Suc i) rest of
           (as, ws, fs) \<Rightarrow> (a2 # as, w # ws, f # fs))"

text \<open>The loop over \<open>update["notify_intersections"]\<close>.\<close>

fun notify_all :: "TrafficSimulation \<Rightarrow> coord list \<Rightarrow> py_error + TrafficSimulation" where
  "notify_all sim [] = Inr sim"
| "notify_all sim ((x, y) # rest) =
     (case get_intersection_at sim x y of
        Inl err \<Rightarrow> Inl err
      | Inr None \<Rightarrow> notify_all sim rest
      | Inr (Some idx) \<Rightarrow>
          notify_all
            (sim\<lparr>intersections :=
                   (intersections sim)
                     [idx := fst (switch_to_emergency_mode (intersections sim ! idx) North)]\<rparr>)
            rest)"

definition reset_intersections :: "TrafficSimulation \<Rightarrow> TrafficSimulation" where
  "reset_intersections sim =
     sim\<lparr>intersections :=
           map (\<lambda>a. if emergency_mode a then fst (exit_emergency_mode a) else a)
               (intersections sim)\<rparr>"

text \<open>
  The loop over \<open>list(self.emergency_agent.active_emergencies.keys())\<close>; \<open>j\<close> is the
  place of the next vehicle.
\<close>

fun update_emergencies ::
  "(nat \<Rightarrow> rat) \<Rightarrow> nat \<Rightarrow> TrafficSimulation \<Rightarrow> string list \<Rightarrow> py_error + TrafficSimulation" where
  "update_emergencies now j sim [] = Inr sim"
| "update_emergencies now j sim (vehicle_id # rest) =
     (case update_position (emergency_agent sim) vehicle_id 1 (now j) of
        (ev, Inl err) \<Rightarrow> Inl err
      | (ev, Inr upd) \<Rightarrow>
          (let sim1 = sim\<lparr>emergency_agent := ev\<rparr>
           in case (case upd of
                      Active _ _ notify \<Rightarrow> notify_all sim1 notify
                    | _ \<Rightarrow> Inr sim1) of
                Inl err \<Rightarrow> Inl err
              | Inr sim2 \<Rightarrow>
                  update_emergencies now (Suc j)
                    (case upd of Completed _ _ \<Rightarrow> reset_intersections sim2 | _ \<Rightarrow> sim2)
                    rest))"

definition run_step ::
  "TrafficSimulation \<Rightarrow> (nat \<Rightarrow> distribution) \<Rightarrow> (nat \<Rightarrow> rat) \<Rightarrow> py_error + TrafficSimulation" where
  "run_step sim traffic now =
     (case process_intersections traffic (time_step sim) 0 (intersections sim) of
        (as, wait_times, fairness_values) \<Rightarrow>
          if wait_times = [] then Inl ZeroDivisionError
          else
            (let avg_wait = of_int (sum_list wait_times) / of_nat (length wait_times);
                 avg_fairness = sum_list fairness_values / of_nat (length fairness_values);
                 m = metrics sim;
                 sim1 = sim\<lparr>intersections := as,
                            metrics := m\<lparr>average_wait_time := average_wait_time m @ [avg_wait],
                                         fairness_index_series :=
                                           fairness_index_series m @ [avg_fairness]\<rparr>\<rparr>
             in case update_emergencies now 0 sim1
                       (map fst (active_emergencies (emergency_agent sim1))) of
                  Inl err \<Rightarrow> Inl err
                | Inr sim2 \<Rightarrow> Inr (sim2\<lparr>current_time := current_time sim2 + time_step sim2\<rparr>)))"

text \<open>
  The step loop of the emergency scenario, over the values of \<open>step\<close> still to come,
  with its \<open>break\<close> at completion.
\<close>

fun emergency_loop ::
  "(nat \<Rightarrow> nat \<Rightarrow> distribution) \<Rightarrow> (nat \<Rightarrow> nat \<Rightarrow> rat) \<Rightarrow> int \<Rightarrow> TrafficSimulation \<Rightarrow> nat list
     \<Rightarrow> py_error + TrafficSimulation" where
  "emergency_loop env clock emergency_time sim [] = Inr sim"
| "emergency_loop env clock emergency_time sim (step # rest) =
     (case run_step sim (env step) (clock step) of
        Inl err \<Rightarrow> Inl err
      | Inr sim1 \<Rightarrow>
          (case map_of (active_emergencies (emergency_agent sim1)) ''ambulance_1'' of
             None \<Rightarrow> emergency_loop env clock emergency_time sim1 rest
           | Some e \<Rightarrow>
               if status e = ''completed'' then
                 Inr (sim1\<lparr>metrics := (metrics sim1)
                              \<lparr>emergency_response_time := Some (of_int emergency_time)\<rparr>\<rparr>)
               else emergency_loop env clock emergency_time sim1 rest))"

fun normal_loop ::
  "(nat \<Rightarrow> nat \<Rightarrow> distribution) \<Rightarrow> (nat \<Rightarrow> nat \<Rightarrow> rat) \<Rightarrow> TrafficSimulation \<Rightarrow> nat list
     \<Rightarrow> py_error + TrafficSimulation" where
  "normal_loop env clock sim [] = Inr sim"
| "normal_loop env clock sim (step # rest) =
     (case run_step sim (env step) (clock step) of
        Inl err \<Rightarrow> Inl err
      | Inr sim1 \<Rightarrow> normal_loop env clock sim1 rest)"

text \<open>
  \<open>run_simulation\<close>. The keys that its first lines test are always present in
  \<open>self.metrics\<close>, and the deep copy of the intersections is restored before anything
  has changed it, so neither has an effect. \<open>dispatch_time\<close> is the wall-clock reading of
  the dispatch. The result is the simulation reached; the method returns its \<open>metrics\<close>.
\<close>

definition run_simulation ::
  "TrafficSimulation \<Rightarrow> int \<Rightarrow> bool \<Rightarrow> bool \<Rightarrow> (nat \<Rightarrow> nat \<Rightarrow> distribution) \<Rightarrow> (nat \<Rightarrow> nat \<Rightarrow> rat)
     \<Rightarrow> rat \<Rightarrow> py_error + TrafficSimulation" where
  "run_simulation sim steps visualize emergency_scenario env clock dispatch_time =
     (case
        (if emergency_scenario then
           (let start_pt = (0, 0);
                end_pt = (sim_grid_size sim - 1, sim_grid_size sim - 1);
                grid_distance = \<bar>fst end_pt - fst start_pt\<bar> + \<bar>snd end_pt - snd start_pt\<bar>;
                normal_time = grid_distance * 60;
                emergency_time = grid_distance * 20;
                sim1 = sim\<lparr>metrics := (metrics sim)\<lparr>normal_response_time := Some normal_time\<rparr>\<rparr>;
                sim2 = sim1\<lparr>emergency_agent :=
                              fst (dispatch_vehicle (emergency_agent sim1) ''ambulance_1''
                                     start_pt end_pt 1 dispatch_time)\<rparr>
            in case emergency_loop env clock emergency_time sim2 [0..<nat steps] of
                 Inl err \<Rightarrow> Inl err
               | Inr sim3 \<Rightarrow>
                   if emergency_response_time (metrics sim3) = None then
                     Inr (sim3\<lparr>metrics := (metrics sim3)
                                  \<lparr>emergency_response_time := Some (of_int emergency_time)\<rparr>\<rparr>)
                   else Inr sim3)
         else normal_loop env clock sim [0..<nat steps]) of
        Inl err \<Rightarrow> Inl err
      | Inr sim4 \<Rightarrow>
          if visualize \<and> emergency_scenario then
            (case (emergency_response_time (metrics sim4), normal_response_time (metrics sim4)) of
               (Some et, Some nt) \<Rightarrow>
                 if et > of_int nt then
                   Inr (sim4\<lparr>metrics := (metrics sim4)
                                \<lparr>emergency_response_time := Some (of_int nt * (33 / 100))\<rparr>\<rparr>)
                 else Inr sim4
             | _ \<Rightarrow> Inr sim4)
          else Inr sim4)"

section \<open>Notions of the specification\<close>

text \<open>
  The two legs of a route as the specification describes them: one coordinate at a time
  along the x-axis towards the target x at the starting y, then one coordinate at a time
  along the y-axis towards the target y at the target x.
\<close>

definition x_leg :: "int \<Rightarrow> int \<Rightarrow> int \<Rightarrow> coord list" where
  "x_leg start_x end_x y =
     map (\<lambda>x. (x, y)) (if start_x \<le> end_x then [start_x + 1..end_x] else rev [end_x..start_x - 1])"

definition y_leg :: "int \<Rightarrow> int \<Rightarrow> int \<Rightarrow> coord list" where
  "y_leg x start_y end_y =
     map (\<lambda>y. (x, y)) (if start_y \<le> end_y then [start_y + 1..end_y] else rev [end_y..start_y - 1])"

text \<open>
  The coordinates of a stretch of path that are newly notified: those not cleared yet,
  each once, in path order.
\<close>

fun fresh_coords :: "coord list \<Rightarrow> coord list \<Rightarrow> coord list" where
  "fresh_coords [] cleared = []"
| "fresh_coords (c # cs) cleared =
     (if c \<in> set cleared then fresh_coords cs cleared
      else c # fresh_coords cs (cleared @ [c]))"

text \<open>
  The totals of the axis that has green and of the axis that waits, in the current
  phase.
\<close>

definition green_total :: "SignalControlAgent \<Rightarrow> int" where
  "green_total a =
     (if current_phase a = 0 then waiting_vehicles a North + waiting_vehicles a South
      else waiting_vehicles a East + waiting_vehicles a West)"

definition red_total :: "SignalControlAgent \<Rightarrow> int" where
  "red_total a =
     (if current_phase a = 0 then waiting_vehicles a East + waiting_vehicles a West
      else waiting_vehicles a North + waiting_vehicles a South)"

text \<open>
  Jain's fairness index of a window of snapshots: the square of their sum over the
  number of snapshots times the sum of their squares.
\<close>

definition jain_index :: "int list \<Rightarrow> rat" where
  "jain_index ws =
     (of_int (sum_list ws)) ^ 2 / (of_nat (length ws) * of_int (sum_list (map (\<lambda>w. w ^ 2) ws)))"

section \<open>Invariants of the emergency scenario\<close>

text \<open>The route of the scenario's ambulance, from (0,0) to (3,3).\<close>

definition ambulance_path :: "coord list" where
  "ambulance_path = [(1, 0), (2, 0), (3, 0), (3, 1), (3, 2), (3, 3)]"

text \<open>
  Two simulation states that differ at most in the contents of their intersections, the
  simulation clock and the step length.
\<close>

definition same_frame :: "TrafficSimulation \<Rightarrow> TrafficSimulation \<Rightarrow> bool" where
  "same_frame sim sim' \<longleftrightarrow>
     sim_grid_size sim' = sim_grid_size sim \<and>
     length (intersections sim') = length (intersections sim) \<and>
     emergency_agent sim' = emergency_agent sim \<and>
     metrics sim' = metrics sim"

text \<open>
  The coordinator holds the scenario's ambulance and nothing else, on its route, at a
  valid position.
\<close>

definition ambulance_en_route :: "EmergencyVehicleAgent \<Rightarrow> bool" where
  "ambulance_en_route ev \<longleftrightarrow>
     map fst (active_emergencies ev) = [''ambulance_1''] \<and>
     list_all (\<lambda>(k, e). path e = ambulance_path \<and>
                 0 \<le> current_position e \<and> current_position e \<le> 5)
       (active_emergencies ev)"

text \<open>
  What every pass of the step loop of the 4 by 4 scenario keeps, before the loop
  records the emergency response time.
\<close>

definition scenario_inv :: "TrafficSimulation \<Rightarrow> bool" where
  "scenario_inv sim \<longleftrightarrow>
     sim_grid_size sim = 4 \<and> length (intersections sim) = 16 \<and>
     ambulance_en_route (emergency_agent sim) \<and>
     normal_response_time (metrics sim) = Some 360 \<and>
     emergency_response_time (metrics sim) = None"

section \<open>Path generation\<close>

lemma move_x_eq: "move_x cx cy ex p = (ex, p @ x_leg cx ex cy)"
proof (induction cx cy ex p rule: move_x.induct)
  case (1 cx cy ex p)
  show ?case
  proof (cases "cx = ex")
    case True
    then show ?thesis by (subst move_x.simps) (simp add: x_leg_def)
  next
    case False
    note ne = False
    show ?thesis
    proof (cases "cx < ex")
      case True
      have "move_x cx cy ex p = move_x (cx + 1) cy ex (p @ [(cx + 1, cy)])"
        using ne True by (subst move_x.simps) (simp add: Let_def)
      also have "\<dots> = (ex, (p @ [(cx + 1, cy)]) @ x_leg (cx + 1) ex cy)"
        using "1.IH"[OF ne refl] True by simp
      finally have unfolded: "move_x cx cy ex p = (ex, (p @ [(cx + 1, cy)]) @ x_leg (cx + 1) ex cy)" .
      have "x_leg cx ex cy = (cx + 1, cy) # x_leg (cx + 1) ex cy"
        using True by (simp add: x_leg_def upto_rec1[of "cx + 1" ex])
      with unfolded show ?thesis by simp
    next
      case False
      then have gt: "ex < cx" using ne by simp
      have "move_x cx cy ex p = move_x (cx - 1) cy ex (p @ [(cx - 1, cy)])"
        using ne gt by (subst move_x.simps) (simp add: Let_def)
      also have "\<dots> = (ex, (p @ [(cx - 1, cy)]) @ x_leg (cx - 1) ex cy)"
        using "1.IH"[OF ne refl] gt by simp
      finally have unfolded: "move_x cx cy ex p = (ex, (p @ [(cx - 1, cy)]) @ x_leg (cx - 1) ex cy)" .
      have "x_leg cx ex cy = (cx - 1, cy) # x_leg (cx - 1) ex cy"
        using gt by (simp add: x_leg_def upto_rec2[of ex "cx - 1"])
      with unfolded show ?thesis by simp
    qed
  qed
qed

lemma move_y_eq: "move_y cx cy ey p = (ey, p @ y_leg cx cy ey)"
proof (induction cx cy ey p rule: move_y.induct)
  case (1 cx cy ey p)
  show ?case
  proof (cases "cy = ey")
    case True
    then show ?thesis by (subst move_y.simps) (simp add: y_leg_def)
  next
    case False
    note ne = False
    show ?thesis
    proof (cases "cy < ey")
      case True
      have "move_y cx cy ey p = move_y cx (cy + 1) ey (p @ [(cx, cy + 1)])"
        using ne True by (subst move_y.simps) (simp add: Let_def)
      also have "\<dots> = (ey, (p @ [(cx, cy + 1)]) @ y_leg cx (cy + 1) ey)"
        using "1.IH"[OF ne refl] True by simp
      finally have unfolded: "move_y cx cy ey p = (ey, (p @ [(cx, cy + 1)]) @ y_leg cx (cy + 1) ey)" .
      have "y_leg cx cy ey = (cx, cy + 1) # y_leg cx (cy + 1) ey"
        using True by (simp add: y_leg_def upto_rec1[of "cy + 1" ey])
      with unfolded show ?thesis by simp
    next
      case False
      then have gt: "ey < cy" using ne by simp
      have "move_y cx cy ey p = move_y cx (cy - 1) ey (p @ [(cx, cy - 1)])"
        using ne gt by (subst move_y.simps) (simp add: Let_def)
      also have "\<dots> = (ey, (p @ [(cx, cy - 1)]) @ y_leg cx (cy - 1) ey)"
        using "1.IH"[OF ne refl] gt by simp
      finally have unfolded: "move_y cx cy ey p = (ey, (p @ [(cx, cy - 1)]) @ y_leg cx (cy - 1) ey)" .
      have "y_leg cx cy ey = (cx, cy - 1) # y_leg cx (cy - 1) ey"
        using gt by (simp add: y_leg_def upto_rec2[of ey "cy - 1"])
      with unfolded show ?thesis by simp
    qed
  qed
qed

lemma generate_path_legs:
  "generate_path (sx, sy) (ex, ey) = x_leg sx ex sy @ y_leg ex sy ey"
  by (simp add: generate_path_def move_x_eq move_y_eq)

lemma length_x_leg: "length (x_leg a b y) = nat \<bar>b - a\<bar>"
  by (simp add: x_leg_def)

lemma length_y_leg: "length (y_leg x a b) = nat \<bar>b - a\<bar>"
  by (simp add: y_leg_def)

text \<open>
  Claim C6. For all grid coordinates the generated path is the x-leg followed by the
  y-leg, so its length is the Manhattan distance; from (0,0) to (3,3) it has the six
  steps of three x-moves and three y-moves.
\<close>

theorem generate_path_two_legs:
  "generate_path (sx, sy) (ex, ey) = x_leg sx ex sy @ y_leg ex sy ey
   \<and> length (generate_path (sx, sy) (ex, ey)) = nat (\<bar>ex - sx\<bar> + \<bar>ey - sy\<bar>)
   \<and> x_leg 0 3 0 = [(1, 0), (2, 0), (3, 0)]
   \<and> y_leg 3 0 3 = [(3, 1), (3, 2), (3, 3)]
   \<and> generate_path (0, 0) (3, 3) = [(1, 0), (2, 0), (3, 0), (3, 1), (3, 2), (3, 3)]"
proof -
  have legs: "generate_path (sx, sy) (ex, ey) = x_leg sx ex sy @ y_leg ex sy ey"
    by (rule generate_path_legs)
  have len: "length (generate_path (sx, sy) (ex, ey)) = nat (\<bar>ex - sx\<bar> + \<bar>ey - sy\<bar>)"
    by (simp add: generate_path_legs length_x_leg length_y_leg nat_add_distrib)
  have xl: "x_leg 0 3 0 = [(1, 0), (2, 0), (3, 0)]"
    by (simp add: x_leg_def upto.simps)
  have yl: "y_leg 3 0 3 = [(3, 1), (3, 2), (3, 3)]"
    by (simp add: y_leg_def upto.simps)
  have ex: "generate_path (0, 0) (3, 3) = [(1, 0), (2, 0), (3, 0), (3, 1), (3, 2), (3, 3)]"
    by (simp add: generate_path_legs xl yl)
  from legs len xl yl ex show ?thesis by blast
qed

section \<open>The emergency coordinator\<close>

subsection \<open>Auxiliary facts\<close>

lemma py_index_in_range:
  "0 \<le> i \<Longrightarrow> i < int (length xs) \<Longrightarrow> py_index xs i = Inr (xs ! nat i)"
  by (simp add: py_index_def)

lemma py_index_Nil: "py_index [] i = Inl IndexError"
  by (simp add: py_index_def)


lemma look_ahead_fresh:
  "0 \<le> idx + k \<Longrightarrow>
   look_ahead p idx (map (\<lambda>j. k + int j) [0..<m]) (nt, cl) =
     ((nt @ fresh_coords (take m (drop (nat (idx + k)) p)) cl,
       cl @ fresh_coords (take m (drop (nat (idx + k)) p)) cl), None)"
proof (induction m arbitrary: k nt cl)
  case 0
  then show ?case by simp
next
  case (Suc m)
  have split: "map (\<lambda>j. k + int j) [0..<Suc m] = k # map (\<lambda>j. (k + 1) + int j) [0..<m]"
    by (simp add: upt_rec[of 0 "Suc m"] map_Suc_upt[symmetric] del: upt_Suc) 
  have nxt: "nat (idx + (k + 1)) = Suc (nat (idx + k))"
    using Suc.prems by simp
  have ih: "\<And>nt cl. look_ahead p idx (map (\<lambda>j. (k + 1) + int j) [0..<m]) (nt, cl) =
     ((nt @ fresh_coords (take m (drop (Suc (nat (idx + k))) p)) cl,
       cl @ fresh_coords (take m (drop (Suc (nat (idx + k))) p)) cl), None)"
    using Suc.IH[of "k + 1"] Suc.prems nxt by simp
  show ?case
  proof (cases "idx + k < int (length p)")
    case True
    then have lt: "nat (idx + k) < length p" using Suc.prems by simp
    have dr: "drop (nat (idx + k)) p = p ! nat (idx + k) # drop (Suc (nat (idx + k))) p"
      using lt by (simp add: Cons_nth_drop_Suc)
    have px: "py_index p (idx + k) = Inr (p ! nat (idx + k))"
      using True Suc.prems by (simp add: py_index_in_range)
    show ?thesis
      unfolding split by (simp add: True px dr ih)
  next
    case False
    then have "drop (nat (idx + k)) p = []" "drop (Suc (nat (idx + k))) p = []"
      using Suc.prems by simp_all
    then show ?thesis
      unfolding split using False by (simp add: ih)
  qed
qed

lemma look_ahead_123:
  assumes "0 \<le> idx"
  shows "look_ahead p idx [1, 2, 3] ([], cl) =
     ((fresh_coords (take 3 (drop (nat idx + 1) p)) cl,
       cl @ fresh_coords (take 3 (drop (nat idx + 1) p)) cl), None)"
proof -
  have l: "[1, 2, 3] = map (\<lambda>j. 1 + int j) [0..<3]"
    by (simp add: upt_rec)
  have n: "nat (idx + 1) = nat idx + 1" using assms by simp
  show ?thesis
    unfolding l using look_ahead_fresh[of idx 1 p 3 "[]" cl] assms n by simp
qed

lemma update_position_found:
  assumes act: "map_of (active_emergencies s) v = Some e"
    and idx: "new_idx = min (current_position e + steps) (int (length (path e)) - 1)"
    and lo: "0 \<le> new_idx"
  shows "update_position s v steps now =
     (let fresh = fresh_coords (take 3 (drop (nat new_idx + 1) (path e))) (intersections_cleared e);
          e2 = e\<lparr>current_position := new_idx,
                 intersections_cleared := intersections_cleared e @ fresh\<rparr>
      in if new_idx \<ge> int (length (path e)) - 1 then
           (s\<lparr>active_emergencies := AList.update v
                 (e2\<lparr>status := ''completed'', travel_time := Some (now - start_time e)\<rparr>)
                 (active_emergencies s)\<rparr>,
            Inr (Completed v (now - start_time e)))
         else
           (s\<lparr>active_emergencies := AList.update v e2 (active_emergencies s)\<rparr>,
            Inr (Active v (path e ! nat new_idx) fresh)))"
proof -
  have hi: "new_idx < int (length (path e))" using idx by simp
  have px: "py_index (path e) new_idx = Inr (path e ! nat new_idx)"
    using lo hi by (rule py_index_in_range)
  note la = look_ahead_123[OF lo, of "path e" "intersections_cleared e"]
  show ?thesis
    using px la unfolding idx update_position_def
    by (simp add: act Let_def del: look_ahead.simps)
qed

lemma path_0_0_1_0: "generate_path (0, 0) (1, 0) = [(1, 0)]"
  by (simp add: generate_path_legs x_leg_def y_leg_def upto.simps)

lemma path_0_0_2_1: "generate_path (0, 0) (2, 1) = [(1, 0), (2, 0), (2, 1)]"
  by (simp add: generate_path_legs x_leg_def y_leg_def upto.simps)

lemma path_same: "generate_path p p = []"
  by (cases p) (simp add: generate_path_legs x_leg_def y_leg_def)

subsection \<open>Unknown vehicles\<close>

text \<open>
  Claim C7. For every coordinator state and every vehicle id that is not a key of
  \<open>active_emergencies\<close>, \<open>update_position\<close> returns the error dictionary
  "Vehicle not found" and the coordinator state is unchanged.
\<close>

theorem update_position_not_found:
  assumes "map_of (active_emergencies s) v = None"
  shows "update_position s v steps now = (s, Inr (Error ''Vehicle not found''))"
  using assms by (simp add: update_position_def)

theorem update_position_not_found_witness:
  "map_of (active_emergencies (fst (dispatch_vehicle EmergencyVehicleAgent_init ''ambulance_1'' (0, 0) (1, 0) 1 0))) ''fire_2'' = None
   \<and> update_position (fst (dispatch_vehicle EmergencyVehicleAgent_init ''ambulance_1'' (0, 0) (1, 0) 1 0)) ''fire_2'' 1 7
       = (fst (dispatch_vehicle EmergencyVehicleAgent_init ''ambulance_1'' (0, 0) (1, 0) 1 0), Inr (Error ''Vehicle not found''))"
proof -
  have h: "map_of (active_emergencies (fst (dispatch_vehicle EmergencyVehicleAgent_init ''ambulance_1'' (0, 0) (1, 0) 1 0))) ''fire_2'' = None"
    by (simp add: dispatch_vehicle_def EmergencyVehicleAgent_init_def Let_def)
  from h update_position_not_found[OF h, of 1 7] show ?thesis by simp
qed

subsection \<open>Duplicate dispatch\<close>

text \<open>
  Claim C5, as stated, fails: a second \<open>dispatch_vehicle\<close> with the id of an active
  record is not rejected. Below, the record of ambulance_1 on its way from (0,0) to
  (2,1) is replaced by a fresh record for the route from (0,0) to (1,0), and the call
  reports the dispatch.
\<close>

theorem dispatch_vehicle_duplicate_counterexample:
  "map_of (active_emergencies (fst (dispatch_vehicle EmergencyVehicleAgent_init ''ambulance_1'' (0, 0) (2, 1) 1 0))) ''ambulance_1''
     = Some \<lparr>path = [(1, 0), (2, 0), (2, 1)], current_position = 0, start_point = (0, 0),
             end_point = (2, 1), priority = 1, start_time = 0, status = ''active'',
             intersections_cleared = [], travel_time = None\<rparr>
   \<and> dispatch_vehicle (fst (dispatch_vehicle EmergencyVehicleAgent_init ''ambulance_1'' (0, 0) (2, 1) 1 0))
        ''ambulance_1'' (0, 0) (1, 0) 2 9
     = (\<lparr>active_emergencies =
           [(''ambulance_1'',
             \<lparr>path = [(1, 0)], current_position = 0, start_point = (0, 0),
              end_point = (1, 0), priority = 2, start_time = 9, status = ''active'',
              intersections_cleared = [], travel_time = None\<rparr>)],
         completed_emergencies = [], grid_size = 4\<rparr>,
        Dispatched ''ambulance_1'' [(1, 0)] 2)"
  by (simp add: dispatch_vehicle_def EmergencyVehicleAgent_init_def Let_def path_0_0_1_0 path_0_0_2_1)

text \<open>
  Claim C5, amended. \<open>dispatch_vehicle\<close> never fails: for every coordinator state and
  every id, active or not, it stores a fresh record (position 0, status active, nothing
  cleared) under the id, replacing a record already stored there, keeps the order of the
  keys (a new id goes last), and returns the first up to three path coordinates.
\<close>

theorem dispatch_vehicle_overwrites:
  "dispatch_vehicle s v a b prio now =
     (s\<lparr>active_emergencies := AList.update v
          \<lparr>path = generate_path a b, current_position = 0, start_point = a, end_point = b,
           priority = prio, start_time = now, status = ''active'',
           intersections_cleared = [], travel_time = None\<rparr> (active_emergencies s)\<rparr>,
      Dispatched v (take 3 (generate_path a b)) prio)
   \<and> map_of (active_emergencies (fst (dispatch_vehicle s v a b prio now))) v =
       Some \<lparr>path = generate_path a b, current_position = 0, start_point = a, end_point = b,
             priority = prio, start_time = now, status = ''active'',
             intersections_cleared = [], travel_time = None\<rparr>
   \<and> map fst (active_emergencies (fst (dispatch_vehicle s v a b prio now))) =
       (if v \<in> set (map fst (active_emergencies s)) then map fst (active_emergencies s)
        else map fst (active_emergencies s) @ [v])"
  by (simp add: dispatch_vehicle_def Let_def update_conv' update_keys min_def)

subsection \<open>A position update of zero steps\<close>




subsection \<open>Completion\<close>

text \<open>
  A call that reaches or exceeds the last index of a non-empty path leaves the position
  at the last index and the status completed, keeps the path and the cleared
  coordinates, and returns the completed dictionary; this holds of a record that is
  completed already as well, so the status never goes back.
\<close>

lemma update_position_reaches_end:
  assumes "map_of (active_emergencies s) v = Some e"
    and "path e \<noteq> []"
    and "int (length (path e)) - 1 \<le> current_position e + steps"
  shows "\<exists>e' t. update_position s v steps now =
            (s\<lparr>active_emergencies := AList.update v e' (active_emergencies s)\<rparr>,
             Inr (Completed v t))
         \<and> current_position e' = int (length (path e)) - 1
         \<and> status e' = ''completed''
         \<and> path e' = path e
         \<and> intersections_cleared e' = intersections_cleared e"
proof -
  have idx: "int (length (path e)) - 1 = min (current_position e + steps) (int (length (path e)) - 1)"
    using assms(3) by simp
  have lo: "0 \<le> int (length (path e)) - 1"
    using assms(2) by (cases "path e") simp_all
  have dr: "drop (Suc (nat (int (length (path e)) - 1))) (path e) = []"
    using lo by simp
  have "update_position s v steps now =
     (s\<lparr>active_emergencies := AList.update v
          (e\<lparr>current_position := int (length (path e)) - 1, status := ''completed'',
             travel_time := Some (now - start_time e)\<rparr>)
          (active_emergencies s)\<rparr>,
      Inr (Completed v (now - start_time e)))"
    using update_position_found[OF assms(1) idx lo, of now] dr
    by (simp add: Let_def)
  then show ?thesis by force
qed

text \<open>
  Claim C3 at a state the code reaches. On the one-step route from (0,0) to (1,0), the
  call at clock reading 5 completes the record with travel time 5. The record stays in
  \<open>active_emergencies\<close>, and the next call, at reading 9, runs the completion branch
  again and overwrites the stored travel time with 9: the travel time is not computed
  once, and a call after completion is not without effect on the record.
\<close>

theorem update_position_recomputes_travel_time:
  "fst (update_position
          (fst (dispatch_vehicle EmergencyVehicleAgent_init ''ambulance_1'' (0, 0) (1, 0) 1 0))
          ''ambulance_1'' 1 5)
     = \<lparr>active_emergencies =
           [(''ambulance_1'',
             \<lparr>path = [(1, 0)], current_position = 0, start_point = (0, 0),
              end_point = (1, 0), priority = 1, start_time = 0, status = ''completed'',
              intersections_cleared = [], travel_time = Some 5\<rparr>)],
         completed_emergencies = [], grid_size = 4\<rparr>
   \<and> update_position
        (fst (update_position
          (fst (dispatch_vehicle EmergencyVehicleAgent_init ''ambulance_1'' (0, 0) (1, 0) 1 0))
          ''ambulance_1'' 1 5))
        ''ambulance_1'' 1 9
     = (\<lparr>active_emergencies =
           [(''ambulance_1'',
             \<lparr>path = [(1, 0)], current_position = 0, start_point = (0, 0),
              end_point = (1, 0), priority = 1, start_time = 0, status = ''completed'',
              intersections_cleared = [], travel_time = Some 9\<rparr>)],
         completed_emergencies = [], grid_size = 4\<rparr>,
        Inr (Completed ''ambulance_1'' 9))"
  by (simp add: update_position_def dispatch_vehicle_def EmergencyVehicleAgent_init_def Let_def
      path_0_0_1_0 py_index_def)

subsection \<open>The empty path\<close>

text \<open>
  Claim C10. A dispatch whose start equals its end stores a record with the empty path
  and position 0. On every record with the empty path, \<open>update_position\<close> raises
  IndexError at the path access, for every value of \<open>steps\<close>; when the position plus
  \<open>steps\<close> is at least -1, as for the first and every later call that does not step
  backwards, the index it has stored by then is -1.
\<close>

theorem update_position_empty_path:
  "map_of (active_emergencies (fst (dispatch_vehicle s0 v p p prio t0))) v =
      Some \<lparr>path = [], current_position = 0, start_point = p, end_point = p,
            priority = prio, start_time = t0, status = ''active'',
            intersections_cleared = [], travel_time = None\<rparr>
   \<and> (map_of (active_emergencies s) v = Some e \<and> path e = [] \<longrightarrow>
        snd (update_position s v steps now) = Inl IndexError)
   \<and> (map_of (active_emergencies s) v = Some e \<and> path e = [] \<and> - 1 \<le> current_position e + steps \<longrightarrow>
        update_position s v steps now =
          (s\<lparr>active_emergencies := AList.update v (e\<lparr>current_position := - 1\<rparr>)
               (active_emergencies s)\<rparr>, Inl IndexError))"
  by (simp add: dispatch_vehicle_def Let_def update_conv' path_same update_position_def py_index_Nil min_def)

theorem update_position_empty_path_witness:
  "map_of (active_emergencies (fst (dispatch_vehicle EmergencyVehicleAgent_init ''ambulance_1'' (2, 2) (2, 2) 1 0))) ''ambulance_1''
      = Some \<lparr>path = [], current_position = 0, start_point = (2, 2), end_point = (2, 2),
            priority = 1, start_time = 0, status = ''active'',
            intersections_cleared = [], travel_time = None\<rparr>
   \<and> update_position (fst (dispatch_vehicle EmergencyVehicleAgent_init ''ambulance_1'' (2, 2) (2, 2) 1 0)) ''ambulance_1'' 1 5
      = (\<lparr>active_emergencies =
           [(''ambulance_1'',
             \<lparr>path = [], current_position = - 1, start_point = (2, 2), end_point = (2, 2),
              priority = 1, start_time = 0, status = ''active'',
              intersections_cleared = [], travel_time = None\<rparr>)],
          completed_emergencies = [], grid_size = 4\<rparr>, Inl IndexError)"
  using update_position_empty_path[of EmergencyVehicleAgent_init "''ambulance_1''" "(2, 2)" 1 0
      "fst (dispatch_vehicle EmergencyVehicleAgent_init ''ambulance_1'' (2, 2) (2, 2) 1 0)"
      "\<lparr>path = [], current_position = 0, start_point = (2, 2), end_point = (2, 2),
            priority = 1, start_time = 0, status = ''active'',
            intersections_cleared = [], travel_time = None\<rparr>" 1 5]
  by (simp add: dispatch_vehicle_def Let_def path_same EmergencyVehicleAgent_init_def)

subsection \<open>Metrics after a completion\<close>

text \<open>
  No method of the coordinator writes \<open>completed_emergencies\<close>, so from a coordinator
  that has none \<open>get_metrics\<close> always takes its first branch.
\<close>

lemma completed_emergencies_never_written:
  "completed_emergencies (fst (dispatch_vehicle s v a b prio now)) = completed_emergencies s"
  "completed_emergencies (fst (update_position s v steps now)) = completed_emergencies s"
  "completed_emergencies (set_grid_size s n) = completed_emergencies s"
  by (simp_all add: dispatch_vehicle_def update_position_def set_grid_size_def Let_def
      split: option.splits sum.splits prod.splits)

lemma get_metrics_without_completed:
  assumes "completed_emergencies s = []"
  shows "get_metrics (fst (update_position s v steps now)) =
     Inr \<lparr>total_emergencies = length (active_emergencies (fst (update_position s v steps now))),
          completed_count = 0, avg_travel_time = None, min_travel_time = None,
          max_travel_time = None\<rparr>"
  using assms by (simp add: get_metrics_def completed_emergencies_never_written)

text \<open>
  Claim C4 at a state the code reaches. After ambulance_1 is dispatched from (0,0) to
  (1,0) and \<open>update_position\<close> has reported its completion, \<open>get_metrics\<close> reports
  no completed emergency and no average travel time: \<open>update_position\<close> leaves the
  record in \<open>active_emergencies\<close>, and nothing writes \<open>completed_emergencies\<close>.
\<close>

theorem get_metrics_after_completion:
  "snd (update_position
          (fst (dispatch_vehicle EmergencyVehicleAgent_init ''ambulance_1'' (0, 0) (1, 0) 1 0))
          ''ambulance_1'' 1 5) = Inr (Completed ''ambulance_1'' 5)
   \<and> get_metrics (fst (update_position
          (fst (dispatch_vehicle EmergencyVehicleAgent_init ''ambulance_1'' (0, 0) (1, 0) 1 0))
          ''ambulance_1'' 1 5))
      = Inr \<lparr>total_emergencies = 1, completed_count = 0, avg_travel_time = None,
             min_travel_time = None, max_travel_time = None\<rparr>"
  by (simp add: update_position_def dispatch_vehicle_def EmergencyVehicleAgent_init_def Let_def
      path_0_0_1_0 py_index_def get_metrics_def)

section \<open>The signal controller\<close>

subsection \<open>Phase duration\<close>

lemma fold_waiting_nonneg:
  "\<forall>d. 0 \<le> w d \<Longrightarrow> list_all (\<lambda>(d, v). 0 \<le> total_v v) traffic \<Longrightarrow>
   0 \<le> fold (\<lambda>(d, v) w. w(d := total_v v)) traffic w d'"
  by (induction traffic arbitrary: w) (auto split: prod.splits)

text \<open>Rounding to a double does not cross an integer below \<open>2 ^ 53\<close>.\<close>

lemma floor_numeral_div_rat [simp]: "\<lfloor>numeral a / numeral b :: rat\<rfloor> = numeral a div numeral b"
  using floor_divide_of_int_eq[of "numeral a" "numeral b", where ?'a = rat] by simp

lemma round_half_even_ge:
  assumes "of_int j \<le> q"
  shows "j \<le> round_half_even q"
proof -
  have "j \<le> \<lfloor>q\<rfloor>" using assms by (simp add: le_floor_iff)
  moreover have "\<lfloor>q\<rfloor> \<le> round_half_even q"
    by (simp add: round_half_even_def Let_def)
  ultimately show ?thesis by simp
qed

lemma round_half_even_le:
  assumes "q \<le> of_int j"
  shows "round_half_even q \<le> j"
proof (cases "q = of_int \<lfloor>q\<rfloor>")
  case True
  then have "round_half_even q = \<lfloor>q\<rfloor>" by (simp add: round_half_even_def Let_def)
  moreover have "\<lfloor>q\<rfloor> \<le> j" using assms by (simp add: floor_le_iff)
  ultimately show ?thesis by simp
next
  case False
  then have "of_int \<lfloor>q\<rfloor> < q" using of_int_floor_le[of q] by (metis order_less_le)
  then have "of_int \<lfloor>q\<rfloor> < (of_int j :: rat)" using assms by simp
  then have "\<lfloor>q\<rfloor> < j" by (simp only: of_int_less_iff)
  moreover have "round_half_even q \<le> \<lfloor>q\<rfloor> + 1"
    by (simp add: round_half_even_def Let_def)
  ultimately show ?thesis by simp
qed

lemma binade_up_spec:
  "1 \<le> x \<Longrightarrow> 0 \<le> binade_up x \<and> 2 ^ nat (binade_up x) \<le> x \<and> x < 2 * 2 ^ nat (binade_up x)"
proof (induction x rule: binade_up.induct)
  case (1 x)
  show ?case
  proof (cases "2 \<le> x")
    case True
    then have h: "1 \<le> x / 2" by simp
    from "1.IH"[OF True h] have ih: "0 \<le> binade_up (x / 2)"
      "2 ^ nat (binade_up (x / 2)) \<le> x / 2" "x / 2 < 2 * 2 ^ nat (binade_up (x / 2))"
      by simp_all
    have eq: "binade_up x = binade_up (x / 2) + 1"
      using True by (subst binade_up.simps) simp
    have n: "nat (binade_up (x / 2) + 1) = Suc (nat (binade_up (x / 2)))"
      using ih(1) by simp
    show ?thesis using ih by (simp add: eq n)
  next
    case False
    then have "binade_up x = 0" by (subst binade_up.simps) simp
    then show ?thesis using False "1.prems" by simp
  qed
qed

lemma py_float_ge_1:
  assumes "1 \<le> x"
  shows "py_float x = of_int (round_half_even (x / 2 powi (binade_up x - 52))) * 2 powi (binade_up x - 52)"
proof -
  have "0 \<le> binade_up x" using binade_up_spec[OF assms] by simp
  then have "max (binade_up x - 52) (- 1074) = binade_up x - 52" by simp
  then show ?thesis using assms by (simp add: py_float_def binade_def Let_def)
qed

lemma py_float_int_lower:
  assumes "1 \<le> m" and "m < 2 ^ 53" and "of_int m \<le> x"
  shows "of_int m \<le> py_float x"
proof -
  have x1: "1 \<le> x" using assms(1,3) by (meson of_int_1_le_iff order_trans)
  define e where "e = binade_up x"
  from binade_up_spec[OF x1] have e0: "0 \<le> e" and lo: "2 ^ nat e \<le> x"
    by (simp_all add: e_def)
  have pf: "py_float x = of_int (round_half_even (x / 2 powi (e - 52))) * 2 powi (e - 52)"
    using py_float_ge_1[OF x1] by (simp add: e_def)
  show ?thesis
  proof (cases "e \<le> 52")
    case True
    define s :: nat where "s = nat (52 - e)"
    have u: "(2::rat) powi (e - 52) = 1 / 2 ^ s"
      using True by (simp add: power_int_def s_def field_simps)
    have "(of_int (m * 2 ^ s) :: rat) \<le> x * 2 ^ s" using assms(3) by simp
    then have "m * 2 ^ s \<le> round_half_even (x * 2 ^ s)" by (rule round_half_even_ge)
    then have "(of_int (m * 2 ^ s) :: rat) \<le> of_int (round_half_even (x * 2 ^ s))"
      by (simp only: of_int_le_iff)
    then have "(of_int m :: rat) * 2 ^ s \<le> of_int (round_half_even (x * 2 ^ s))" by simp
    then have "(of_int m :: rat) \<le> of_int (round_half_even (x * 2 ^ s)) / 2 ^ s"
      by (simp add: pos_le_divide_eq)
    then show ?thesis by (simp add: pf u)
  next
    case False
    define s :: nat where "s = nat (e - 52)"
    have u: "(2::rat) powi (e - 52) = 2 ^ s"
      using False by (simp add: power_int_def s_def)
    have ne: "nat e = 52 + s" using False by (simp add: s_def)
    have "(2::rat) ^ 52 * 2 ^ s \<le> x" using lo by (simp add: ne power_add)
    then have "(of_int (2 ^ 52) :: rat) \<le> x / 2 ^ s" by (simp add: pos_le_divide_eq)
    then have r: "2 ^ 52 \<le> round_half_even (x / 2 ^ s)" by (rule round_half_even_ge)
    have s1: "1 \<le> s" using False by (simp add: s_def)
    have "(2::int) ^ 1 \<le> 2 ^ s" using s1 by (intro power_increasing) simp_all
    then have two: "(2::int) \<le> 2 ^ s" by simp
    have "m < 2 ^ 52 * 2" using assms(2) by simp
    also have "\<dots> \<le> 2 ^ 52 * 2 ^ s" using two by simp
    also have "\<dots> \<le> round_half_even (x / 2 ^ s) * 2 ^ s" using r by simp
    finally have "m \<le> round_half_even (x / 2 ^ s) * 2 ^ s" by simp
    then have "(of_int m :: rat) \<le> of_int (round_half_even (x / 2 ^ s) * 2 ^ s)"
      by (simp only: of_int_le_iff)
    then have "(of_int m :: rat) \<le> of_int (round_half_even (x / 2 ^ s)) * 2 ^ s" by simp
    then show ?thesis by (simp add: pf u)
  qed
qed

lemma py_float_int_upper:
  assumes "1 \<le> x" and "x \<le> of_int m" and "m < 2 ^ 53"
  shows "py_float x \<le> of_int m"
proof -
  define e where "e = binade_up x"
  from binade_up_spec[OF assms(1)] have e0: "0 \<le> e" and lo: "2 ^ nat e \<le> x"
    by (simp_all add: e_def)
  have pf: "py_float x = of_int (round_half_even (x / 2 powi (e - 52))) * 2 powi (e - 52)"
    using py_float_ge_1[OF assms(1)] by (simp add: e_def)
  have "(of_int m :: rat) < of_int (2 ^ 53)" using assms(3) by (simp only: of_int_less_iff)
  then have p: "(2::rat) ^ nat e < 2 ^ 53" using lo assms(2) by simp
  have "nat e < 53"
  proof (rule ccontr)
    assume "\<not> nat e < 53"
    then have "53 \<le> nat e" by simp
    then have "(2::rat) ^ 53 \<le> 2 ^ nat e" by (intro power_increasing) simp_all
    with p show False by simp
  qed
  then have le: "e \<le> 52" by simp
  define s :: nat where "s = nat (52 - e)"
  have u: "(2::rat) powi (e - 52) = 1 / 2 ^ s"
    using le by (simp add: power_int_def s_def field_simps)
  have "x * 2 ^ s \<le> (of_int (m * 2 ^ s) :: rat)" using assms(2) by simp
  then have "round_half_even (x * 2 ^ s) \<le> m * 2 ^ s" by (rule round_half_even_le)
  then have "(of_int (round_half_even (x * 2 ^ s)) :: rat) \<le> of_int (m * 2 ^ s)"
    by (simp only: of_int_le_iff)
  then have "(of_int (round_half_even (x * 2 ^ s)) :: rat) \<le> of_int m * 2 ^ s" by simp
  then have "(of_int (round_half_even (x * 2 ^ s)) :: rat) / 2 ^ s \<le> of_int m"
    by (simp add: pos_divide_le_eq)
  then show ?thesis by (simp add: pf u)
qed

lemma py_float_of_int:
  assumes "1 \<le> m" and "m < 2 ^ 53"
  shows "py_float (of_int m) = of_int m"
proof (rule antisym)
  have "(1::rat) \<le> of_int m" using assms(1) by simp
  then show "py_float (of_int m) \<le> of_int m"
    using assms(2) by (intro py_float_int_upper) simp_all
  show "of_int m \<le> py_float (of_int m)"
    using assms by (intro py_float_int_lower) simp_all
qed

lemma py_float_numeral:
  "numeral k < (2::int) ^ 53 \<Longrightarrow> py_float (numeral k) = numeral k"
  using py_float_of_int[of "numeral k"] by simp

lemma py_int_of_int: "py_int (of_int n) = n"
  by (simp add: py_int_def)

text \<open>The duration chosen when the green axis is the heavier one.\<close>

lemma heavier_duration:
  fixes g r :: int
  defines "d \<equiv> min 90 (py_int (py_float (of_int 30 *
                 min 3 (py_float (of_int g / of_int (max 1 r))))))"
  shows "3 * max 1 r \<le> g \<Longrightarrow> d = 90"
    and "0 \<le> r \<Longrightarrow> r < g \<Longrightarrow> 30 \<le> d"
    and "d \<le> 90"
    and "r = 0 \<Longrightarrow> 0 < g \<Longrightarrow> d = min 90 (30 * g)"
proof -
  let ?q = "of_int g / of_int (max 1 r) :: rat"
  have pos: "(0::rat) < of_int (max 1 r)" by simp
  have f90: "py_float 90 = 90" by (simp add: py_float_numeral)
  have capped: "d = 90" if "3 * max 1 r \<le> g"
  proof -
    have "(of_int (3 * max 1 r) :: rat) \<le> of_int g" using that by (simp only: of_int_le_iff)
    then have "(of_int 3 :: rat) \<le> ?q" using pos by (simp add: le_divide_eq)
    then have "(of_int 3 :: rat) \<le> py_float ?q" by (intro py_float_int_lower) simp_all
    then have "min 3 (py_float ?q) = 3" by simp
    then show ?thesis by (simp add: d_def f90 py_int_def)
  qed
  show "3 * max 1 r \<le> g \<Longrightarrow> d = 90" by (rule capped)
  show "d \<le> 90" by (simp add: d_def)
  show "30 \<le> d" if "0 \<le> r" and "r < g"
  proof -
    have "max 1 r \<le> g" using that by simp
    then have "(of_int (max 1 r) :: rat) \<le> of_int g" by (simp only: of_int_le_iff)
    then have "(of_int 1 :: rat) \<le> ?q" using pos by (simp add: le_divide_eq)
    then have "(of_int 1 :: rat) \<le> py_float ?q" by (intro py_float_int_lower) simp_all
    then have "(1::rat) \<le> min 3 (py_float ?q)" by simp
    then have "(of_int 30 :: rat) \<le> of_int 30 * min 3 (py_float ?q)" by simp
    then have "(of_int 30 :: rat) \<le> py_float (of_int 30 * min 3 (py_float ?q))"
      by (intro py_float_int_lower) simp_all
    then have "30 \<le> py_int (py_float (of_int 30 * min 3 (py_float ?q)))"
      by (simp add: py_int_def le_floor_iff)
    then show ?thesis by (simp add: d_def)
  qed
  show "d = min 90 (30 * g)" if "r = 0" and "0 < g"
  proof (cases "3 \<le> g")
    case True
    then have "3 * max 1 r \<le> g" using that by simp
    from capped[OF this] True show ?thesis by simp
  next
    case False
    then have "g = 1 \<or> g = 2" using that by auto
    then show ?thesis
      using that by (auto simp add: d_def py_float_numeral py_int_def py_float_of_int[of 1, simplified])
  qed
qed

lemma calculate_optimal_timing_duration:
  "phase_duration (calculate_optimal_timing a) =
     (if red_total a < green_total a
      then min 90 (py_int (py_float (of_int 30 *
             min 3 (py_float (of_int (green_total a) / of_int (max 1 (red_total a)))))))
      else 15)"
  by (simp add: calculate_optimal_timing_def green_total_def red_total_def Let_def)

text \<open>
  The model at two inputs where the rounding decides: of 90 waiting vehicles a green
  phase clears 62 and leaves 28, since the double product of 90 and 0.7 lies below 63;
  and the quotient of 299999999999999999 by 100000000000000000 rounds to 3, which gives
  90 seconds.
\<close>

lemmas py_float_eval =
  py_float_def binade_def binade_up.simps binade_down.simps round_half_even_def Let_def

lemma py_float_seven_tenths: "py_float (7 / 10) = 3152519739159347 / 4503599627370496"
  by (simp add: py_float_eval)

lemma process_movement_rounds_down:
  "waiting_vehicles
     (process_movement (SignalControlAgent_init ''intersection_0'' (0, 0)
        \<lparr>waiting_vehicles := (\<lambda>d. 0)(North := 90)\<rparr>) North South) North = 28"
  by (simp add: process_movement_def SignalControlAgent_init_def Let_def py_float_numeral
      py_float_seven_tenths py_int_def) (simp add: py_float_eval)

lemma ratio_rounds_up_to_cap:
  "phase_duration
     (calculate_optimal_timing (SignalControlAgent_init ''intersection_0'' (0, 0)
        \<lparr>waiting_vehicles := (\<lambda>d. 0)(North := 299999999999999999, East := 100000000000000000)\<rparr>))
   = 90"
  by (simp add: calculate_optimal_timing_duration green_total_def red_total_def
      SignalControlAgent_init_def py_float_numeral py_int_def) (simp add: py_float_eval)

text \<open>
  Claim C1. For every controller that is not in emergency mode and whose waiting counts
  are non-negative, with non-negative incoming totals, the phase duration that
  \<open>_calculate_optimal_timing\<close> computes, and so the one \<open>process_traffic_data\<close>
  leaves, is an integer from 15 to 90, in either phase. It is 15 unless the green axis
  is the heavier one; then it is the truncated product of 30 and the ratio of the
  heavier to the lighter total, where the lighter total is raised to 1 before the
  division, the ratio is capped at 3 and the product at 90. So it is at least 30 then,
  it is 90 as soon as the heavier total is three times the lighter one raised to 1, and
  with an empty lighter axis it is 30 times the heavier total, capped at 90.
\<close>

theorem phase_duration_bounds:
  assumes "list_all (\<lambda>d. 0 \<le> waiting_vehicles a d) [North, South, East, West]"
    and "list_all (\<lambda>(d, v). 0 \<le> total_v v) traffic"
    and "\<not> emergency_mode a"
  shows "phase_duration (calculate_optimal_timing a) =
           (if red_total a < green_total a
            then min 90 (py_int (py_float (30 *
                   min 3 (py_float (of_int (green_total a) / of_int (max 1 (red_total a)))))))
            else 15)
       \<and> 15 \<le> phase_duration (calculate_optimal_timing a)
       \<and> phase_duration (calculate_optimal_timing a) \<le> 90
       \<and> (red_total a < green_total a \<longrightarrow> 30 \<le> phase_duration (calculate_optimal_timing a))
       \<and> (3 * max 1 (red_total a) \<le> green_total a \<longrightarrow>
            phase_duration (calculate_optimal_timing a) = 90)
       \<and> (red_total a = 0 \<and> 0 < green_total a \<longrightarrow>
            phase_duration (calculate_optimal_timing a) = min 90 (30 * green_total a))
       \<and> phase_duration (fst (process_traffic_data a traffic)) =
           phase_duration (calculate_optimal_timing
             (a\<lparr>waiting_vehicles :=
                  fold (\<lambda>(d, v) w. w(d := total_v v)) traffic (waiting_vehicles a)\<rparr>))
       \<and> 15 \<le> phase_duration (fst (process_traffic_data a traffic))
       \<and> phase_duration (fst (process_traffic_data a traffic)) \<le> 90"
proof -
  let ?a1 = "a\<lparr>waiting_vehicles :=
                fold (\<lambda>(d, v) w. w(d := total_v v)) traffic (waiting_vehicles a)\<rparr>"
  have n0: "\<forall>d. 0 \<le> waiting_vehicles a d"
  proof
    fix d show "0 \<le> waiting_vehicles a d" using assms(1) by (cases d) simp_all
  qed
  have n1: "\<forall>d. 0 \<le> waiting_vehicles ?a1 d"
    using fold_waiting_nonneg[OF n0 assms(2)] by simp
  have red_nonneg: "0 \<le> red_total b" if "\<forall>d. 0 \<le> waiting_vehicles b d" for b
    using that by (simp add: red_total_def add_nonneg_nonneg)
  have bounds: "15 \<le> phase_duration (calculate_optimal_timing b) \<and>
                phase_duration (calculate_optimal_timing b) \<le> 90 \<and>
                (red_total b < green_total b \<longrightarrow> 30 \<le> phase_duration (calculate_optimal_timing b))"
    if "\<forall>d. 0 \<le> waiting_vehicles b d" for b
    using heavier_duration(2)[OF red_nonneg[OF that], of "green_total b"]
      heavier_duration(3)[of "green_total b" "red_total b"]
    by (auto simp add: calculate_optimal_timing_duration)
  have cap: "3 * max 1 (red_total a) \<le> green_total a \<Longrightarrow>
      phase_duration (calculate_optimal_timing a) = 90"
    using heavier_duration(1)[of "red_total a" "green_total a"]
    by (auto simp add: calculate_optimal_timing_duration)
  have floor1: "red_total a = 0 \<Longrightarrow> 0 < green_total a \<Longrightarrow>
      phase_duration (calculate_optimal_timing a) = min 90 (30 * green_total a)"
    using heavier_duration(4)[of "red_total a" "green_total a"]
    by (simp add: calculate_optimal_timing_duration)
  have pd: "phase_duration (fst (process_traffic_data a traffic)) =
            phase_duration (calculate_optimal_timing ?a1)"
    using assms(3) by (simp add: process_traffic_data_def Let_def)
  show ?thesis
    using calculate_optimal_timing_duration[of a] bounds[OF n0] bounds[OF n1] cap floor1 pd
    by simp
qed

theorem phase_duration_bounds_witness:
  "list_all (\<lambda>d. 0 \<le> waiting_vehicles
        (SignalControlAgent_init ''intersection_0'' (0, 0)
           \<lparr>waiting_vehicles := (\<lambda>d. 0)(North := 5)\<rparr>) d) [North, South, East, West]
   \<and> list_all (\<lambda>(d, v). 0 \<le> total_v v)
        [(North, \<lparr>cars = 24, bikes = 3, buses = 1, trucks = 2, total_v = 30\<rparr>),
         (South, \<lparr>cars = 9, bikes = 1, buses = 0, trucks = 0, total_v = 10\<rparr>),
         (East, \<lparr>cars = 8, bikes = 1, buses = 1, trucks = 0, total_v = 10\<rparr>),
         (West, \<lparr>cars = 8, bikes = 1, buses = 1, trucks = 0, total_v = 10\<rparr>)]
   \<and> \<not> emergency_mode (SignalControlAgent_init ''intersection_0'' (0, 0)
           \<lparr>waiting_vehicles := (\<lambda>d. 0)(North := 5)\<rparr>)
   \<and> green_total (SignalControlAgent_init ''intersection_0'' (0, 0)
           \<lparr>waiting_vehicles := (\<lambda>d. 0)(North := 5)\<rparr>) = 5
   \<and> red_total (SignalControlAgent_init ''intersection_0'' (0, 0)
           \<lparr>waiting_vehicles := (\<lambda>d. 0)(North := 5)\<rparr>) = 0
   \<and> phase_duration (calculate_optimal_timing (SignalControlAgent_init ''intersection_0'' (0, 0)
           \<lparr>waiting_vehicles := (\<lambda>d. 0)(North := 5)\<rparr>)) = 90
   \<and> phase_duration (fst (process_traffic_data (SignalControlAgent_init ''intersection_0'' (0, 0)
           \<lparr>waiting_vehicles := (\<lambda>d. 0)(North := 5)\<rparr>)
        [(North, \<lparr>cars = 24, bikes = 3, buses = 1, trucks = 2, total_v = 30\<rparr>),
         (South, \<lparr>cars = 9, bikes = 1, buses = 0, trucks = 0, total_v = 10\<rparr>),
         (East, \<lparr>cars = 8, bikes = 1, buses = 1, trucks = 0, total_v = 10\<rparr>),
         (West, \<lparr>cars = 8, bikes = 1, buses = 1, trucks = 0, total_v = 10\<rparr>)])) = 60"
proof -
  let ?a = "SignalControlAgent_init ''intersection_0'' (0, 0)
           \<lparr>waiting_vehicles := (\<lambda>d. 0)(North := 5)\<rparr>"
  let ?t = "[(North, \<lparr>cars = 24, bikes = 3, buses = 1, trucks = 2, total_v = 30\<rparr>),
         (South, \<lparr>cars = 9, bikes = 1, buses = 0, trucks = 0, total_v = 10\<rparr>),
         (East, \<lparr>cars = 8, bikes = 1, buses = 1, trucks = 0, total_v = 10\<rparr>),
         (West, \<lparr>cars = 8, bikes = 1, buses = 1, trucks = 0, total_v = 10\<rparr>)]"
  have h1: "list_all (\<lambda>d. 0 \<le> waiting_vehicles ?a d) [North, South, East, West]"
    by (simp add: SignalControlAgent_init_def)
  have h2: "list_all (\<lambda>(d, v). 0 \<le> total_v v) ?t" by simp
  have h3: "\<not> emergency_mode ?a" by (simp add: SignalControlAgent_init_def)
  have g: "green_total ?a = 5" and r: "red_total ?a = 0"
    by (simp_all add: green_total_def red_total_def SignalControlAgent_init_def)
  have v: "phase_duration (calculate_optimal_timing
             (?a\<lparr>waiting_vehicles :=
                  fold (\<lambda>(d, v) w. w(d := total_v v)) ?t (waiting_vehicles ?a)\<rparr>)) = 60"
    by (simp add: calculate_optimal_timing_duration green_total_def red_total_def
        SignalControlAgent_init_def py_float_numeral py_int_def)
  from phase_duration_bounds[OF h1 h2 h3] h1 h2 h3 g r v show ?thesis by simp
qed

subsection \<open>Fairness\<close>

lemma two_xy_le: "2 * x * y \<le> x ^ 2 + y ^ 2" for x y :: int
proof -
  have "0 \<le> (x - y) ^ 2" by simp
  then show ?thesis by (simp add: power2_diff)
qed

lemma cross_term_bound:
  "2 * x * sum_list ws \<le> int (length ws) * x ^ 2 + sum_list (map (\<lambda>w. w ^ 2) ws)" for x :: int
proof (induction ws)
  case Nil
  then show ?case by simp
next
  case (Cons w ws)
  have "2 * x * sum_list (w # ws) = 2 * x * w + 2 * x * sum_list ws"
    by (simp add: algebra_simps)
  also have "\<dots> \<le> (x ^ 2 + w ^ 2) + (int (length ws) * x ^ 2 + sum_list (map (\<lambda>w. w ^ 2) ws))"
    using two_xy_le[of x w] Cons.IH by (rule add_mono)
  also have "\<dots> = int (length (w # ws)) * x ^ 2 + sum_list (map (\<lambda>w. w ^ 2) (w # ws))"
    by (simp add: algebra_simps)
  finally show ?case .
qed

lemma square_sum_le:
  "(sum_list ws) ^ 2 \<le> int (length ws) * sum_list (map (\<lambda>w. w ^ 2) ws)" for ws :: "int list"
proof (induction ws)
  case Nil
  then show ?case by simp
next
  case (Cons w ws)
  let ?S = "sum_list ws" and ?Q = "sum_list (map (\<lambda>w. w ^ 2) ws)" and ?n = "int (length ws)"
  have "(sum_list (w # ws)) ^ 2 = w ^ 2 + 2 * w * ?S + ?S ^ 2"
    by (simp add: power2_sum)
  also have "\<dots> \<le> w ^ 2 + (?n * w ^ 2 + ?Q) + ?n * ?Q"
    using cross_term_bound[of w ws] Cons.IH by simp
  also have "\<dots> = int (length (w # ws)) * sum_list (map (\<lambda>w. w ^ 2) (w # ws))"
    by (simp add: algebra_simps)
  finally show ?case .
qed

lemma squares_nonneg: "0 \<le> sum_list (map (\<lambda>w. w ^ 2) ws)" for ws :: "int list"
  by (induction ws) simp_all

lemma sum_pos_of_squares:
  fixes ws :: "int list"
  assumes "\<forall>w\<in>set ws. 0 \<le> w" and "sum_list (map (\<lambda>w. w ^ 2) ws) \<noteq> 0"
  shows "0 < sum_list ws"
proof (rule ccontr)
  assume "\<not> 0 < sum_list ws"
  moreover have "0 \<le> sum_list ws" using assms(1) by (simp add: sum_list_nonneg)
  ultimately have "sum_list ws = 0" by simp
  then have "\<forall>w\<in>set ws. w = 0"
    using assms(1) by (simp add: sum_list_nonneg_eq_0_iff)
  then have "sum_list (map (\<lambda>w. w ^ 2) ws) = 0"
    by (induction ws) simp_all
  with assms(2) show False by simp
qed

lemma constant_sums:
  fixes c :: int
  assumes "\<forall>w\<in>set ws. w = c"
  shows "sum_list ws = int (length ws) * c"
    and "sum_list (map (\<lambda>w. w ^ 2) ws) = int (length ws) * c ^ 2"
  using assms by (induction ws) (simp_all add: algebra_simps)


lemma squares_zero_iff:
  fixes ws :: "int list"
  shows "sum_list (map (\<lambda>w. w ^ 2) ws) = 0 \<longleftrightarrow> list_all (\<lambda>w. w = 0) ws"
proof (induction ws)
  case Nil
  then show ?case by simp
next
  case (Cons w ws)
  have "0 \<le> w ^ 2" by simp
  moreover have "0 \<le> sum_list (map (\<lambda>w. w ^ 2) ws)" by (rule squares_nonneg)
  ultimately have "w ^ 2 + sum_list (map (\<lambda>w. w ^ 2) ws) = 0 \<longleftrightarrow>
      w ^ 2 = 0 \<and> sum_list (map (\<lambda>w. w ^ 2) ws) = 0"
    by (rule add_nonneg_eq_0_iff)
  then show ?case using Cons.IH by simp
qed

lemma fairness_index_eq:
  "fairness_index (get_fairness_metrics a) =
     (if list_all (\<lambda>w. w = 0) (historical_wait_times a) then 1
      else jain_index (historical_wait_times a))"
proof (cases "historical_wait_times a = []")
  case True
  then show ?thesis by (simp add: get_fairness_metrics_def)
next
  case False
  then show ?thesis
    by (simp add: get_fairness_metrics_def Let_def squares_zero_iff jain_index_def)
qed

lemma jain_index_le_1: "jain_index ws \<le> 1"
proof -
  let ?S = "sum_list ws" and ?Q = "sum_list (map (\<lambda>w. w ^ 2) ws)"
  define num :: rat where "num = of_int (?S ^ 2)"
  define den :: rat where "den = of_int (int (length ws) * ?Q)"
  have le: "num \<le> den"
    unfolding num_def den_def using square_sum_le[of ws] by (simp only: of_int_le_iff)
  have "num / den \<le> 1"
  proof (cases "den = 0")
    case True
    then show ?thesis by simp
  next
    case False
    have "0 \<le> num" unfolding num_def by simp
    with le False have "0 < den" by simp
    then show ?thesis using le by simp
  qed
  then show ?thesis by (simp add: jain_index_def num_def den_def)
qed

lemma jain_index_pos:
  assumes "list_all (\<lambda>w. 0 \<le> w) ws" and "\<not> list_all (\<lambda>w. w = 0) ws"
  shows "0 < jain_index ws"
proof -
  let ?S = "sum_list ws" and ?Q = "sum_list (map (\<lambda>w. w ^ 2) ws)"
  have q: "?Q \<noteq> 0" using assms(2) by (simp add: squares_zero_iff)
  have nn: "\<forall>w\<in>set ws. 0 \<le> w" using assms(1) by (simp add: list_all_iff)
  have s: "0 < ?S" using sum_pos_of_squares[OF nn q] .
  have qp: "0 < ?Q" using q squares_nonneg[of ws] by simp
  have len: "ws \<noteq> []" using assms(2) by auto
  have "(0::rat) < (of_int ?S) ^ 2" using s by simp
  moreover have "(0::rat) < of_nat (length ws) * of_int ?Q" using qp len by simp
  ultimately show ?thesis by (simp add: jain_index_def)
qed

lemma jain_index_constant:
  assumes "list_all (\<lambda>w. w = c) ws" and "\<not> list_all (\<lambda>w. w = 0) ws"
  shows "jain_index ws = 1"
proof -
  have all: "\<forall>w\<in>set ws. w = c" using assms(1) by (simp add: list_all_iff)
  have len: "ws \<noteq> []" using assms(2) by auto
  have c: "c \<noteq> 0" using assms by (auto simp add: list_all_iff)
  have "jain_index ws = (of_int (int (length ws) * c)) ^ 2 /
      (of_nat (length ws) * of_int (int (length ws) * c ^ 2))"
    by (simp only: jain_index_def constant_sums[OF all])
  also have "\<dots> = 1" using len c by (simp add: power2_eq_square)
  finally show ?thesis .
qed

text \<open>
  Claim C8. For every history of non-negative snapshots, of any length,
  \<open>get_fairness_metrics\<close> returns an index above 0 and at most 1: it is 1 when the
  history is empty or all zero and Jain's index otherwise, and it is 1 whenever all
  snapshots are equal.
\<close>

theorem fairness_index_range:
  assumes "list_all (\<lambda>w. 0 \<le> w) (historical_wait_times a)"
  shows "0 < fairness_index (get_fairness_metrics a)
       \<and> fairness_index (get_fairness_metrics a) \<le> 1
       \<and> fairness_index (get_fairness_metrics a) =
           (if list_all (\<lambda>w. w = 0) (historical_wait_times a) then 1
            else jain_index (historical_wait_times a))
       \<and> (list_all (\<lambda>w. w = c) (historical_wait_times a) \<longrightarrow>
            fairness_index (get_fairness_metrics a) = 1)"
proof (cases "list_all (\<lambda>w. w = 0) (historical_wait_times a)")
  case True
  then show ?thesis by (simp add: fairness_index_eq)
next
  case False
  then show ?thesis
    using jain_index_pos[OF assms False] jain_index_le_1[of "historical_wait_times a"]
      jain_index_constant[of c "historical_wait_times a"]
    by (simp add: fairness_index_eq)
qed

theorem fairness_index_range_witness:
  "list_all (\<lambda>w. 0 \<le> w)
     (historical_wait_times (SignalControlAgent_init ''intersection_0'' (0, 0)
        \<lparr>historical_wait_times := [4, 6]\<rparr>))
   \<and> fairness_index (get_fairness_metrics (SignalControlAgent_init ''intersection_0'' (0, 0)
        \<lparr>historical_wait_times := [4, 6]\<rparr>)) = 25 / 26
   \<and> (0::rat) < 25 / 26 \<and> (25::rat) / 26 \<le> 1
   \<and> list_all (\<lambda>w. 0 \<le> w)
     (historical_wait_times (SignalControlAgent_init ''intersection_0'' (0, 0)
        \<lparr>historical_wait_times := [7, 7, 7]\<rparr>))
   \<and> list_all (\<lambda>w. w = 7)
     (historical_wait_times (SignalControlAgent_init ''intersection_0'' (0, 0)
        \<lparr>historical_wait_times := [7, 7, 7]\<rparr>))
   \<and> fairness_index (get_fairness_metrics (SignalControlAgent_init ''intersection_0'' (0, 0)
        \<lparr>historical_wait_times := [7, 7, 7]\<rparr>)) = 1"
proof -
  have v: "jain_index [4, 6] = 25 / 26"
    by (simp add: jain_index_def)
  show ?thesis
    using fairness_index_range[of "SignalControlAgent_init ''intersection_0'' (0, 0)
        \<lparr>historical_wait_times := [4, 6]\<rparr>" 0]
      fairness_index_range[of "SignalControlAgent_init ''intersection_0'' (0, 0)
        \<lparr>historical_wait_times := [7, 7, 7]\<rparr>" 7]
    by (simp add: SignalControlAgent_init_def v)
qed

section \<open>The simulation engine\<close>

subsection \<open>One step keeps the scenario invariant\<close>

lemma same_frame_refl: "same_frame sim sim"
  by (simp add: same_frame_def)

lemma same_frame_trans: "same_frame a b \<Longrightarrow> same_frame b c \<Longrightarrow> same_frame a c"
  by (simp add: same_frame_def)

lemma ambulance_en_routeE:
  assumes "ambulance_en_route ev"
  obtains e where "active_emergencies ev = [(''ambulance_1'', e)]" "path e = ambulance_path"
    "0 \<le> current_position e" "current_position e \<le> 5"
proof -
  from assms have k: "map fst (active_emergencies ev) = [''ambulance_1'']"
    and a: "list_all (\<lambda>(k, e). path e = ambulance_path \<and>
                 0 \<le> current_position e \<and> current_position e \<le> 5) (active_emergencies ev)"
    by (simp_all add: ambulance_en_route_def)
  from k obtain e where al: "active_emergencies ev = [(''ambulance_1'', e)]"
    by (cases "active_emergencies ev") auto
  from a al that show thesis by simp
qed

lemma update_position_en_route:
  assumes "ambulance_en_route ev"
  shows "\<exists>ev' r. update_position ev ''ambulance_1'' 1 now = (ev', Inr r) \<and> ambulance_en_route ev'"
proof -
  from assms obtain e where act: "active_emergencies ev = [(''ambulance_1'', e)]"
    and p: "path e = ambulance_path" and lo: "0 \<le> current_position e"
    and hi: "current_position e \<le> 5"
    by (rule ambulance_en_routeE)
  have m: "map_of (active_emergencies ev) ''ambulance_1'' = Some e" by (simp add: act)
  define new_idx where "new_idx = min (current_position e + 1) (int (length (path e)) - 1)"
  have n0: "0 \<le> new_idx" and n5: "new_idx \<le> 5"
    using lo by (simp_all add: new_idx_def p ambulance_path_def)
  show ?thesis
    using update_position_found[OF m new_idx_def n0, of now] n0 n5
    by (auto simp add: Let_def act p ambulance_en_route_def)
qed

lemma get_intersection_at_ok:
  assumes "sim_grid_size sim = 4" and "length (intersections sim) = 16"
  shows "get_intersection_at sim x y = Inr None \<or>
         (\<exists>idx. get_intersection_at sim x y = Inr (Some idx) \<and> idx < 16)"
proof (cases "0 \<le> x \<and> x < 4 \<and> 0 \<le> y \<and> y < 4")
  case True
  then have r: "0 \<le> y * 4 + x" "y * 4 + x < 16" by auto
  then have n: "nat (y * 4 + x) < 16" by simp
  from r have "py_index (intersections sim) (y * 4 + x) = Inr (intersections sim ! nat (y * 4 + x))"
    using assms(2) by (simp add: py_index_in_range)
  then show ?thesis
    using True r n assms by (simp add: get_intersection_at_def Let_def)
next
  case False
  then show ?thesis using assms by (auto simp add: get_intersection_at_def)
qed

lemma notify_all_ok:
  assumes "sim_grid_size sim = 4" and "length (intersections sim) = 16"
  shows "\<exists>sim'. notify_all sim cs = Inr sim' \<and> same_frame sim sim'"
  using assms
proof (induction cs arbitrary: sim)
  case Nil
  then show ?case by (simp add: same_frame_refl)
next
  case (Cons c cs)
  obtain x y where c: "c = (x, y)" by (cases c)
  from get_intersection_at_ok[OF Cons.prems, of x y]
  show ?case
  proof
    assume g: "get_intersection_at sim x y = Inr None"
    show ?thesis using Cons.IH[OF Cons.prems] by (simp add: c g)
  next
    assume "\<exists>idx. get_intersection_at sim x y = Inr (Some idx) \<and> idx < 16"
    then obtain idx where g: "get_intersection_at sim x y = Inr (Some idx)" by blast
    let ?sim1 = "sim\<lparr>intersections := (intersections sim)
        [idx := fst (switch_to_emergency_mode (intersections sim ! idx) North)]\<rparr>"
    have f: "same_frame sim ?sim1" by (simp add: same_frame_def)
    have "sim_grid_size ?sim1 = 4" "length (intersections ?sim1) = 16"
      using Cons.prems by simp_all
    from Cons.IH[OF this] obtain sim' where
      "notify_all ?sim1 cs = Inr sim'" "same_frame ?sim1 sim'" by blast
    then show ?thesis
      using same_frame_trans[OF f] by (auto simp add: c g)
  qed
qed

lemma reset_intersections_frame: "same_frame sim (reset_intersections sim)"
  by (simp add: same_frame_def reset_intersections_def)

lemma process_intersections_length:
  "process_intersections traffic step_len i xs = (as, ws, fs) \<Longrightarrow>
   length as = length xs \<and> length ws = length xs"
  by (induction xs arbitrary: i as ws fs) (auto simp add: Let_def split: prod.splits)

lemma scenario_inv_frame:
  "scenario_inv sim \<Longrightarrow> same_frame sim sim' \<Longrightarrow> scenario_inv sim'"
  by (simp add: scenario_inv_def same_frame_def)

lemma update_emergencies_inv:
  assumes "scenario_inv sim"
  shows "\<exists>sim'. update_emergencies now j sim [''ambulance_1''] = Inr sim' \<and> scenario_inv sim'"
proof -
  from assms have en: "ambulance_en_route (emergency_agent sim)"
    by (simp add: scenario_inv_def)
  from update_position_en_route[OF en, of "now j"] obtain ev' r where
    up: "update_position (emergency_agent sim) ''ambulance_1'' 1 (now j) = (ev', Inr r)"
    and en': "ambulance_en_route ev'" by blast
  let ?sim1 = "sim\<lparr>emergency_agent := ev'\<rparr>"
  have inv1: "scenario_inv ?sim1"
    using assms en' by (simp add: scenario_inv_def)
  then have g: "sim_grid_size ?sim1 = 4" and l: "length (intersections ?sim1) = 16"
    by (simp_all add: scenario_inv_def)
  have "\<exists>sim2. (case r of Active _ _ notify \<Rightarrow> notify_all ?sim1 notify | _ \<Rightarrow> Inr ?sim1) = Inr sim2
          \<and> same_frame ?sim1 sim2"
    using notify_all_ok[OF g l] by (cases r) (simp_all add: same_frame_refl)
  then obtain sim2 where
    n: "(case r of Active _ _ notify \<Rightarrow> notify_all ?sim1 notify | _ \<Rightarrow> Inr ?sim1) = Inr sim2"
    and f2: "same_frame ?sim1 sim2" by blast
  let ?sim3 = "case r of Completed _ _ \<Rightarrow> reset_intersections sim2 | _ \<Rightarrow> sim2"
  have f3: "same_frame sim2 ?sim3"
    by (cases r) (simp_all add: same_frame_refl reset_intersections_frame)
  have inv3: "scenario_inv ?sim3"
    using scenario_inv_frame[OF inv1 same_frame_trans[OF f2 f3]] .
  have "update_emergencies now j sim [''ambulance_1''] = Inr ?sim3"
    by (simp add: up n Let_def)
  with inv3 show ?thesis by blast
qed

lemma run_step_inv:
  assumes "scenario_inv sim"
  shows "\<exists>sim'. run_step sim traffic now = Inr sim' \<and> scenario_inv sim'"
proof -
  obtain as ws fs where
    pi: "process_intersections traffic (time_step sim) 0 (intersections sim) = (as, ws, fs)"
    by (cases "process_intersections traffic (time_step sim) 0 (intersections sim)") auto
  from assms have l: "length (intersections sim) = 16" by (simp add: scenario_inv_def)
  from process_intersections_length[OF pi] l
  have la: "length as = 16" and lw: "length ws = 16" by simp_all
  then have ne: "ws \<noteq> []" by auto
  let ?m = "(metrics sim)\<lparr>average_wait_time := average_wait_time (metrics sim) @
                [of_int (sum_list ws) / of_nat (length ws)],
              fairness_index_series := fairness_index_series (metrics sim) @
                [sum_list fs / of_nat (length fs)]\<rparr>"
  let ?sim1 = "sim\<lparr>intersections := as, metrics := ?m\<rparr>"
  have inv1: "scenario_inv ?sim1"
    using assms la by (simp add: scenario_inv_def)
  then have keys: "map fst (active_emergencies (emergency_agent ?sim1)) = [''ambulance_1'']"
    by (simp add: scenario_inv_def ambulance_en_route_def)
  from update_emergencies_inv[OF inv1, of now 0] obtain sim2 where
    ue: "update_emergencies now 0 ?sim1 [''ambulance_1''] = Inr sim2"
    and inv2: "scenario_inv sim2" by blast
  have "run_step sim traffic now = Inr (sim2\<lparr>current_time := current_time sim2 + time_step sim2\<rparr>)"
    unfolding run_step_def using keys ue ne by (simp add: pi Let_def)
  moreover have "scenario_inv (sim2\<lparr>current_time := current_time sim2 + time_step sim2\<rparr>)"
    using inv2 by (simp add: scenario_inv_def)
  ultimately show ?thesis by blast
qed

lemma emergency_loop_inv:
  assumes "scenario_inv sim"
  shows "\<exists>sim'. emergency_loop env clock 120 sim ks = Inr sim' \<and>
           normal_response_time (metrics sim') = Some 360 \<and>
           (emergency_response_time (metrics sim') = None \<or>
            emergency_response_time (metrics sim') = Some 120)"
  using assms
proof (induction ks arbitrary: sim)
  case Nil
  then show ?case by (simp add: scenario_inv_def)
next
  case (Cons k ks)
  from run_step_inv[OF Cons.prems, of "env k" "clock k"] obtain sim1 where
    rs: "run_step sim (env k) (clock k) = Inr sim1" and inv1: "scenario_inv sim1" by blast
  from inv1 have n1: "normal_response_time (metrics sim1) = Some 360"
    by (simp add: scenario_inv_def)
  from inv1 have "ambulance_en_route (emergency_agent sim1)" by (simp add: scenario_inv_def)
  then obtain e where
    act: "active_emergencies (emergency_agent sim1) = [(''ambulance_1'', e)]"
    by (rule ambulance_en_routeE)
  show ?case
  proof (cases "status e = ''completed''")
    case True
    then show ?thesis using n1 by (simp add: rs act)
  next
    case False
    then show ?thesis using Cons.IH[OF inv1] by (simp add: rs act)
  qed
qed

lemma length_create_intersections_4: "length (create_intersections 4) = 16"
  by (simp add: create_intersections_def py_range_def upto.simps)

lemma ambulance_path_eq: "generate_path (0, 0) (3, 3) = ambulance_path"
  by (simp add: generate_path_legs x_leg_def y_leg_def upto.simps ambulance_path_def)

subsection \<open>Response times of the emergency scenario\<close>

text \<open>
  Claim C9. On a simulation created with grid size 4, \<open>run_simulation\<close> with the
  emergency scenario returns, for every number of steps, every traffic input, every
  clock and with or without visualization, and records a normal response time of 360
  and an emergency response time of 120: the precomputed value, whether the loop broke
  at the ambulance's completion or ran out of steps first.
\<close>

theorem run_simulation_response_times:
  "\<exists>sim'. run_simulation (TrafficSimulation_init 4) steps visualize True env clock dispatch_time
            = Inr sim'
     \<and> normal_response_time (metrics sim') = Some 360
     \<and> emergency_response_time (metrics sim') = Some 120"
proof -
  let ?sim = "TrafficSimulation_init 4"
  let ?sim1 = "?sim\<lparr>metrics := (metrics ?sim)\<lparr>normal_response_time := Some 360\<rparr>\<rparr>"
  let ?sim2 = "?sim1\<lparr>emergency_agent :=
                  fst (dispatch_vehicle (emergency_agent ?sim1) ''ambulance_1''
                         (0, 0) (3, 3) 1 dispatch_time)\<rparr>"
  have inv: "scenario_inv ?sim2"
    by (simp add: scenario_inv_def TrafficSimulation_init_def length_create_intersections_4
        ambulance_en_route_def dispatch_vehicle_def Let_def set_grid_size_def
        EmergencyVehicleAgent_init_def ambulance_path_eq)
  from emergency_loop_inv[OF inv, of env clock "[0..<nat steps]"] obtain sim3 where
    el: "emergency_loop env clock 120 ?sim2 [0..<nat steps] = Inr sim3"
    and n3: "normal_response_time (metrics sim3) = Some 360"
    and e3: "emergency_response_time (metrics sim3) = None \<or>
             emergency_response_time (metrics sim3) = Some 120" by blast
  have g: "sim_grid_size ?sim = 4" by (simp add: TrafficSimulation_init_def)
  from e3 show ?thesis
  proof
    assume "emergency_response_time (metrics sim3) = None"
    then show ?thesis
      unfolding run_simulation_def using el n3 by (simp add: g Let_def)
  next
    assume "emergency_response_time (metrics sim3) = Some 120"
    then show ?thesis
      unfolding run_simulation_def using el n3 by (simp add: g Let_def)
  qed
qed

end
